theory Spec2Isabelle
  imports Complex_Main "HOL-Library.Sublist" "HOL-Library.AList"
begin

section \<open>Human-interaction helpers\<close>

text \<open>
  The interaction helpers draw every random quantity from \<^verbatim>\<open>Math.random()\<close>, a number
  in the half-open interval from 0 to 1. The model passes each draw in explicitly, so a
  function that consumes draws takes them as arguments (or takes a stream
  \<open>rnd :: nat \<Rightarrow> real\<close> together with the index of the next unused draw).
  Numbers are modelled as reals; every quantity the theorems below speak about is computed
  from integers and one product with a draw.
\<close>

subsection \<open>Random helpers\<close>

text \<open>\<^verbatim>\<open>rand(min, max) = Math.floor(Math.random() * (max - min + 1)) + min\<close>\<close>

definition rand :: "int \<Rightarrow> int \<Rightarrow> real \<Rightarrow> int" where
  "rand mn mx r = \<lfloor>r * of_int (mx - mn + 1)\<rfloor> + mn"

text \<open>\<^verbatim>\<open>randf(min, max) = Math.random() * (max - min) + min\<close>\<close>

definition randf :: "real \<Rightarrow> real \<Rightarrow> real \<Rightarrow> real" where
  "randf mn mx r = r * (mx - mn) + mn"

definition unit_draw :: "real \<Rightarrow> bool" where
  "unit_draw r \<longleftrightarrow> 0 \<le> r \<and> r < 1"

subsection \<open>Typing\<close>









subsection \<open>Pointer paths\<close>

record point =
  px :: real
  py :: real

text \<open>A cubic Bezier curve through \<open>p0\<close> and \<open>p3\<close> with control points \<open>p1\<close>, \<open>p2\<close>.\<close>

definition bezierPoint :: "point \<Rightarrow> point \<Rightarrow> point \<Rightarrow> point \<Rightarrow> real \<Rightarrow> point" where
  "bezierPoint p0 p1 p2 p3 t =
     (let u = 1 - t in
      \<lparr>px = u * u * u * px p0 + 3 * u * u * t * px p1 + 3 * u * t * t * px p2 + t * t * t * px p3,
       py = u * u * u * py p0 + 3 * u * u * t * py p1 + 3 * u * t * t * py p2 + t * t * t * py p3\<rparr>)"

text \<open>The speed easing applied to the curve parameter.\<close>

definition ease :: "real \<Rightarrow> real" where
  "ease t = (if t < 1 / 2 then 2 * t * t else 1 - (- 2 * t + 2) ^ 2 / 2)"

text \<open>\<^verbatim>\<open>Math.round\<close> rounds to the nearest integer, halves upwards.\<close>

definition js_round :: "real \<Rightarrow> int" where
  "js_round v = \<lfloor>v + 1 / 2\<rfloor>"

text \<open>
  \<^verbatim>\<open>generateMousePath(start, end, steps)\<close>. The eight draws at \<open>k \<dots> k + 7\<close> place the two
  control points, in the order the source evaluates them; sample \<open>i\<close> uses the draws at
  \<open>k + 8 + 2 i\<close> and \<open>k + 9 + 2 i\<close> for its jitter. The loop runs for
  \<open>i = 0, \<dots>, steps\<close>, both ends included.
\<close>

definition path_sample :: "(nat \<Rightarrow> real) \<Rightarrow> nat \<Rightarrow> point \<Rightarrow> point \<Rightarrow> point \<Rightarrow> point \<Rightarrow> nat \<Rightarrow> nat \<Rightarrow> point" where
  "path_sample rnd k start cp1 cp2 end steps i =
     (let t = real i / real steps;
          eased = ease t;
          p = bezierPoint start cp1 cp2 end eased
      in \<lparr>px = of_int (js_round (px p + randf (- 1) 1 (rnd (k + 8 + 2 * i)))),
          py = of_int (js_round (py p + randf (- 1) 1 (rnd (k + 9 + 2 * i))))\<rparr>)"

definition generateMousePath :: "(nat \<Rightarrow> real) \<Rightarrow> nat \<Rightarrow> point \<Rightarrow> point \<Rightarrow> nat \<Rightarrow> point list" where
  "generateMousePath rnd k start end steps =
     (let dx = px end - px start;
          dy = py end - py start;
          cp1 = \<lparr>px = px start + dx * randf (2 / 10) (4 / 10) (rnd k) + randf (- 30) 30 (rnd (k + 1)),
                 py = py start + dy * randf (1 / 10) (3 / 10) (rnd (k + 2)) + randf (- 30) 30 (rnd (k + 3))\<rparr>;
          cp2 = \<lparr>px = px start + dx * randf (6 / 10) (8 / 10) (rnd (k + 4)) + randf (- 20) 20 (rnd (k + 5)),
                 py = py start + dy * randf (7 / 10) (9 / 10) (rnd (k + 6)) + randf (- 20) 20 (rnd (k + 7))\<rparr>
      in map (path_sample rnd k start cp1 cp2 end steps) [0..<steps + 1])"

text \<open>The step count \<^verbatim>\<open>humanMouseMove\<close> derives from the distance to cover:
  \<^verbatim>\<open>Math.max(5, Math.min(25, Math.floor(distance / 30)))\<close>.\<close>

definition move_steps :: "point \<Rightarrow> point \<Rightarrow> nat" where
  "move_steps cur to =
     (let distance = sqrt ((px to - px cur) ^ 2 + (py to - py cur) ^ 2)
      in nat (max 5 (min 25 \<lfloor>distance / 30\<rfloor>)))"

text \<open>
  \<^verbatim>\<open>humanMouseMove(page, toX, toY)\<close>: \<open>lastPos\<close> is the position remembered on the page by
  the previous move (absent on the first move, when a random point of the viewport is
  drawn), \<open>vp\<close> the viewport size reported by the page (1280 by 720 when it reports
  none). The result lists the pointer positions visited, each with the wait that follows
  it, and the position remembered for the next move.
\<close>

definition humanMouseMove ::
  "(nat \<Rightarrow> real) \<Rightarrow> nat \<Rightarrow> point option \<Rightarrow> (int \<times> int) option \<Rightarrow> real \<Rightarrow> real
     \<Rightarrow> (point \<times> int) list \<times> point" where
  "humanMouseMove rnd k lastPos vp toX toY =
     (let viewport = (case vp of None \<Rightarrow> (1280, 720) | Some v \<Rightarrow> v);
          (currentPos, k1) =
            (case lastPos of
               Some p \<Rightarrow> (p, k)
             | None \<Rightarrow> (\<lparr>px = of_int (rand 0 (fst viewport) (rnd k)),
                         py = of_int (rand 0 (snd viewport) (rnd (k + 1)))\<rparr>, k + 2));
          to = \<lparr>px = toX, py = toY\<rparr>;
          steps = move_steps currentPos to;
          path = generateMousePath rnd k1 currentPos to steps;
          k2 = k1 + 8 + 2 * (steps + 1)
      in (map (\<lambda>i. (path ! i, rand 2 12 (rnd (k2 + i)))) [0..<length path], to))"

section \<open>Browser manager\<close>

text \<open>
  The manager drives an external browser library. Its calls into the library are not
  part of the program: the model takes each answer of the library as an argument (the
  record \<open>driver\<close> for the calls made while connecting), keeps the part of the
  browser's state the manager reads back in the record \<open>BrowserContext\<close>, and appends
  every call it makes to the field \<open>calls\<close>. A thrown error is the left summand of the
  result.
\<close>

subsection \<open>Data\<close>

type_synonym page_h = nat
  \<comment> \<open>a page object of the library\<close>

type_synonym ref = nat
  \<comment> \<open>the identity of a log array\<close>

datatype engine = Chromium | Firefox | Webkit

text \<open>
  One constructor for each \<^verbatim>\<open>throw new Error(...)\<close> of the manager, and \<open>DriverError\<close>
  for an error the library raised (with its message, if it has one, and the value of its
  \<^verbatim>\<open>needsCdpFallback\<close> property).
\<close>

datatype js_error =
    DriverError "string option" bool
  | NeedsCdpFallback string
  | ProfileLocked string
  | UserDataDirRequired
  | RecoveryTimeout
  | NotConnected
  | PageNotFound nat
  | FileNotFound string

fun needsCdpFallback :: "js_error \<Rightarrow> bool" where
  "needsCdpFallback (DriverError m b) = b"
| "needsCdpFallback (NeedsCdpFallback m) = True"
| "needsCdpFallback e = False"

text \<open>The text of the profile-locked error; its dash is the three bytes of U+2014.\<close>

definition profile_locked_message :: "string \<Rightarrow> string" where
  "profile_locked_message m =
     ''Chrome profile is locked '' @ [CHR 0xE2, CHR 0x80, CHR 0x94] @
     '' close ALL Chrome windows first, then retry.'' @ [CHR 0x0A] @
     ''Or use CDP instead: start Chrome with --remote-debugging-port=9222 and use --cdp http://localhost:9222'' @
     [CHR 0x0A] @ ''Original error: '' @ m"

fun message :: "js_error \<Rightarrow> string option" where
  "message (DriverError m b) = m"
| "message (NeedsCdpFallback m) = Some (''NEEDS_CDP_FALLBACK: '' @ m)"
| "message (ProfileLocked m) = Some (profile_locked_message m)"
| "message UserDataDirRequired = Some ''userDataDir is required for persistent launch''"
| "message RecoveryTimeout =
     Some ''Chrome did not start within 15s. Ensure no other Chrome instances are running and try again.''"
| "message NotConnected = Some ''Browser not connected. Call browser_connect first.''"
| "message (PageNotFound n) = None"
| "message (FileNotFound p) = Some (''File not found: '' @ p)"

record BrowserConnectionOptions =
  cdpUrl :: "string option"
  userDataDir :: "string option"
  executablePath :: "string option"
  headless :: bool
  browser :: "engine option"
  proxyServer :: "string option"
  device :: "string option"
  channel :: "string option"

record ConsoleLogEntry =
  c_type :: string
  c_text :: string
  c_url :: string
  c_timestamp :: int

record NetworkLogEntry =
  n_url :: string
  n_method :: string
  n_status :: "int option"
  n_resourceType :: string
  n_timestamp :: int
  n_duration :: "int option"

text \<open>What the library hands to the three page listeners.\<close>

record ConsoleMessage =
  m_type :: string
  m_text :: string
  m_location :: "string option"

record Request =
  q_url :: string
  q_method :: string
  q_resourceType :: string

record Response =
  p_url :: string
  p_status :: int

record pending_request =
  r_url :: string
  r_method :: string
  r_resourceType :: string
  r_timestamp :: int

record cookie =
  ck_name :: string
  ck_value :: string
  ck_domain :: string

text \<open>
  The state of a browser context as far as the manager depends on it: the browser type
  that produced it, its open pages in the order \<^verbatim>\<open>context.pages()\<close> lists them, the
  origin each page shows, the cookies added, and the local storage of each origin.
\<close>

record BrowserContext =
  ctx_engine :: engine
  ctx_pages :: "page_h list"
  page_origin :: "page_h \<Rightarrow> string"
  ctx_cookies :: "cookie list"
  localStorage :: "string \<Rightarrow> (string \<rightharpoonup> string)"

datatype action =
    ConnectOverCDP string
  | NewContext
  | LaunchPersistentContext engine string
  | Spawn string "string list"
  | Fetch string
  | Launch engine
  | AddInitScript
  | Route string
  | CtxNewPage
  | Goto page_h string
  | PageClose page_h
  | BringToFront page_h
  | AddCookies "cookie list"
  | Evaluate page_h string "(string \<times> string) list"
  | CtxClose
  | BrowserClose
  | Kill

text \<open>
  The manager. \<open>pages\<close> is the \<^verbatim>\<open>Map\<close> from page id to page, in insertion order. The
  two log maps hold array references; \<open>consoleArrays\<close> and \<open>networkArrays\<close> give the
  contents of each array and \<open>nextRef\<close> is the next unused reference, so that two holders
  of one array see each other's writes. \<open>pendingRequests\<close> is the map each call of
  \<^verbatim>\<open>setupPageTracking\<close> creates for its listeners, indexed by the page id of that call.
  \<open>assignedIds\<close> is a history of the ids handed out, oldest first; nothing reads it.
\<close>

record BrowserManager =
  options :: BrowserConnectionOptions
  browserInstance :: "engine option"
  browserContext :: "BrowserContext option"
  pages :: "(nat \<times> page_h) list"
  nextPageId :: nat
  consoleLogs :: "nat \<rightharpoonup> ref"
  networkLogs :: "nat \<rightharpoonup> ref"
  blockedPatterns :: "string list"
  chromeProcess :: "(string \<times> string list) option"
  consoleArrays :: "ref \<Rightarrow> ConsoleLogEntry list"
  networkArrays :: "ref \<Rightarrow> NetworkLogEntry list"
  nextRef :: ref
  pendingRequests :: "nat \<Rightarrow> (string \<rightharpoonup> pending_request)"
  assignedIds :: "nat list"
  calls :: "action list"

text \<open>The constructor: \<^verbatim>\<open>browser\<close> defaults to chromium when the caller names none.\<close>

definition new_manager :: "BrowserConnectionOptions \<Rightarrow> BrowserManager" where
  "new_manager opts =
     \<lparr>options = opts\<lparr>browser := (case browser opts of None \<Rightarrow> Some Chromium | Some b \<Rightarrow> Some b)\<rparr>,
      browserInstance = None,
      browserContext = None,
      pages = [],
      nextPageId = 1,
      consoleLogs = Map.empty,
      networkLogs = Map.empty,
      blockedPatterns = [],
      chromeProcess = None,
      consoleArrays = (\<lambda>_. []),
      networkArrays = (\<lambda>_. []),
      nextRef = 0,
      pendingRequests = (\<lambda>_. Map.empty),
      assignedIds = [],
      calls = []\<rparr>"

text \<open>A string option in a condition: absent and empty both count as false.\<close>

definition truthy :: "string option \<Rightarrow> bool" where
  "truthy s \<longleftrightarrow> (case s of None \<Rightarrow> False | Some v \<Rightarrow> v \<noteq> [])"

text \<open>\<^verbatim>\<open>s.includes(sub)\<close>\<close>

definition str_includes :: "string \<Rightarrow> string \<Rightarrow> bool" where
  "str_includes s sub \<longleftrightarrow> sublist sub s"

text \<open>\<^verbatim>\<open>err.message?.includes(sub)\<close>: false when the error has no message.\<close>

definition message_includes :: "js_error \<Rightarrow> string \<Rightarrow> bool" where
  "message_includes err sub \<longleftrightarrow> (case message err of None \<Rightarrow> False | Some m \<Rightarrow> str_includes m sub)"

definition engine_name :: "engine \<Rightarrow> string" where
  "engine_name e = (case e of Chromium \<Rightarrow> ''chromium'' | Firefox \<Rightarrow> ''firefox'' | Webkit \<Rightarrow> ''webkit'')"

text \<open>\<^verbatim>\<open>this.options.browser || "chromium"\<close>, the engine the manager reports.\<close>

definition requested_engine :: "BrowserManager \<Rightarrow> engine" where
  "requested_engine st = (case browser (options st) of None \<Rightarrow> Chromium | Some b \<Rightarrow> b)"

definition getBrowserType :: "BrowserManager \<Rightarrow> engine" where
  "getBrowserType st =
     (case browser (options st) of
        Some Firefox \<Rightarrow> Firefox
      | Some Webkit \<Rightarrow> Webkit
      | Some Chromium \<Rightarrow> Chromium
      | None \<Rightarrow> Chromium)"


subsection \<open>Page tracking\<close>

text \<open>
  \<^verbatim>\<open>setupPageTracking(page, pageId)\<close> stores a new empty array under the page id in each
  log map and creates the map of pending requests of its listeners.
\<close>

definition setupPageTracking :: "nat \<Rightarrow> BrowserManager \<Rightarrow> BrowserManager" where
  "setupPageTracking pageId st =
     st\<lparr>consoleLogs := (consoleLogs st)(pageId \<mapsto> nextRef st),
        networkLogs := (networkLogs st)(pageId \<mapsto> nextRef st + 1),
        consoleArrays := (consoleArrays st)(nextRef st := []),
        networkArrays := (networkArrays st)(nextRef st + 1 := []),
        nextRef := nextRef st + 2,
        pendingRequests := (pendingRequests st)(pageId := Map.empty)\<rparr>"

text \<open>The console listener of page id \<open>pageId\<close>; \<open>now\<close> is the clock.\<close>

definition console_entry :: "ConsoleMessage \<Rightarrow> int \<Rightarrow> ConsoleLogEntry" where
  "console_entry msg now =
     \<lparr>c_type = m_type msg, c_text = m_text msg,
      c_url = (case m_location msg of None \<Rightarrow> [] | Some u \<Rightarrow> u),
      c_timestamp = now\<rparr>"

definition on_console :: "nat \<Rightarrow> ConsoleMessage \<Rightarrow> int \<Rightarrow> BrowserManager \<Rightarrow> BrowserManager" where
  "on_console pageId msg now st =
     (case consoleLogs st pageId of
        None \<Rightarrow> st
      | Some logs \<Rightarrow>
          if length (consoleArrays st logs) < 500
          then st\<lparr>consoleArrays := (consoleArrays st)(logs := consoleArrays st logs @ [console_entry msg now])\<rparr>
          else st)"

text \<open>The request listener.\<close>

definition on_request :: "nat \<Rightarrow> Request \<Rightarrow> int \<Rightarrow> BrowserManager \<Rightarrow> BrowserManager" where
  "on_request pageId request now st =
     st\<lparr>pendingRequests := (pendingRequests st)
          (pageId := (pendingRequests st pageId)
             (q_url request \<mapsto>
                \<lparr>r_url = q_url request, r_method = q_method request,
                 r_resourceType = q_resourceType request, r_timestamp = now\<rparr>))\<rparr>"

text \<open>The response listener; the clock is read once for the time stamp (\<open>now\<close>) and once
  for the duration (\<open>now'\<close>).\<close>

definition network_entry :: "Response \<Rightarrow> pending_request option \<Rightarrow> int \<Rightarrow> int \<Rightarrow> NetworkLogEntry" where
  "network_entry response reqInfo now now' =
     \<lparr>n_url = p_url response,
      n_method = (case reqInfo of None \<Rightarrow> ''GET''
                  | Some ri \<Rightarrow> if r_method ri = [] then ''GET'' else r_method ri),
      n_status = Some (p_status response),
      n_resourceType = (case reqInfo of None \<Rightarrow> ''other''
                  | Some ri \<Rightarrow> if r_resourceType ri = [] then ''other'' else r_resourceType ri),
      n_timestamp = now,
      n_duration = (case reqInfo of None \<Rightarrow> None | Some ri \<Rightarrow> Some (now' - r_timestamp ri))\<rparr>"

definition on_response :: "nat \<Rightarrow> Response \<Rightarrow> int \<Rightarrow> int \<Rightarrow> BrowserManager \<Rightarrow> BrowserManager" where
  "on_response pageId response now now' st =
     (let reqInfo = pendingRequests st pageId (p_url response);
          st1 = (case networkLogs st pageId of
                   None \<Rightarrow> st
                 | Some logs \<Rightarrow>
                     if length (networkArrays st logs) < 500
                     then st\<lparr>networkArrays := (networkArrays st)
                            (logs := networkArrays st logs @ [network_entry response reqInfo now now'])\<rparr>
                     else st)
      in st1\<lparr>pendingRequests := (pendingRequests st1)
               (pageId := (pendingRequests st1 pageId)(p_url response := None))\<rparr>)"

text \<open>The close listener.\<close>

definition on_close :: "nat \<Rightarrow> BrowserManager \<Rightarrow> BrowserManager" where
  "on_close pageId st =
     st\<lparr>consoleLogs := (consoleLogs st)(pageId := None),
        networkLogs := (networkLogs st)(pageId := None)\<rparr>"

text \<open>
  The three lines every registration of a page repeats:
  \<^verbatim>\<open>const id = this.nextPageId++; this.pages.set(id, page); this.setupPageTracking(page, id)\<close>.
\<close>

definition registerPage :: "page_h \<Rightarrow> BrowserManager \<Rightarrow> nat \<times> BrowserManager" where
  "registerPage page st =
     (let id = nextPageId st
      in (id, setupPageTracking id
               (st\<lparr>nextPageId := id + 1,
                   pages := AList.update id page (pages st),
                   assignedIds := assignedIds st @ [id]\<rparr>)))"

text \<open>The listener of the context's page-created event.\<close>

definition on_page :: "page_h \<Rightarrow> BrowserManager \<Rightarrow> BrowserManager" where
  "on_page page st = snd (registerPage page st)"

subsection \<open>Page management\<close>

definition getContext :: "BrowserManager \<Rightarrow> js_error + BrowserContext" where
  "getContext st = (case browserContext st of None \<Rightarrow> Inl NotConnected | Some ctx \<Rightarrow> Inr ctx)"

text \<open>
  \<^verbatim>\<open>newPage(url?)\<close>. \<open>created\<close> is the library's answer to \<^verbatim>\<open>ctx.newPage()\<close> and
  \<open>nav\<close> the error of \<^verbatim>\<open>page.goto\<close>, if it raises one. Every connection method
  installs the listener of the page-created event on the context it stores, and the
  library reports each page created in a context to that listener, also a page that
  \<^verbatim>\<open>ctx.newPage()\<close> creates, before the awaited call returns. So the listener \<open>on_page\<close>
  has registered the new page when the method registers it in its turn.
\<close>

definition newPage ::
  "js_error + page_h \<Rightarrow> string option \<Rightarrow> js_error option \<Rightarrow> BrowserManager
     \<Rightarrow> (js_error + nat \<times> page_h) \<times> BrowserManager" where
  "newPage created url nav st =
     (case getContext st of
        Inl e \<Rightarrow> (Inl e, st)
      | Inr ctx \<Rightarrow>
          (case created of
             Inl e \<Rightarrow> (Inl e, st\<lparr>calls := calls st @ [CtxNewPage]\<rparr>)
           | Inr page \<Rightarrow>
               (let st1 = on_page page
                            (st\<lparr>browserContext := Some (ctx\<lparr>ctx_pages := ctx_pages ctx @ [page]\<rparr>),
                               calls := calls st @ [CtxNewPage]\<rparr>);
                    (id, st2) = registerPage page st1
                in if truthy url
                   then (let st3 = st2\<lparr>calls := calls st2 @ [Goto page (the url)]\<rparr>
                         in case nav of
                              Some e \<Rightarrow> (Inl e, st3)
                            | None \<Rightarrow> (Inr (id, page), st3))
                   else (Inr (id, page), st2))))"

definition getOrCreatePage ::
  "js_error + page_h \<Rightarrow> nat option \<Rightarrow> BrowserManager
     \<Rightarrow> (js_error + nat \<times> page_h) \<times> BrowserManager" where
  "getOrCreatePage created pageId st =
     (case pageId of
        Some pid \<Rightarrow>
          (case map_of (pages st) pid of
             None \<Rightarrow> (Inl (PageNotFound pid), st)
           | Some page \<Rightarrow> (Inr (pid, page), st))
      | None \<Rightarrow>
          if length (pages st) > 0
          then (let lastId = Max (set (map fst (pages st)))
                in (Inr (lastId, the (map_of (pages st) lastId)), st))
          else newPage created None None st)"

text \<open>\<^verbatim>\<open>closePage(pageId)\<close> and \<^verbatim>\<open>focusPage(pageId)\<close> do nothing for an id that is
  not in the registry. The close listeners of a page are the steps \<open>PageClosed\<close>.\<close>

definition closePage :: "nat \<Rightarrow> BrowserManager \<Rightarrow> (js_error + unit) \<times> BrowserManager" where
  "closePage pageId st =
     (case map_of (pages st) pageId of
        None \<Rightarrow> (Inr (), st)
      | Some page \<Rightarrow>
          (Inr (),
           st\<lparr>browserContext :=
                 map_option (\<lambda>ctx. ctx\<lparr>ctx_pages := removeAll page (ctx_pages ctx)\<rparr>) (browserContext st),
               calls := calls st @ [PageClose page],
               pages := AList.delete pageId (pages st),
               consoleLogs := (consoleLogs st)(pageId := None),
               networkLogs := (networkLogs st)(pageId := None)\<rparr>))"

definition focusPage :: "nat \<Rightarrow> BrowserManager \<Rightarrow> (js_error + unit) \<times> BrowserManager" where
  "focusPage pageId st =
     (case map_of (pages st) pageId of
        None \<Rightarrow> (Inr (), st)
      | Some page \<Rightarrow> (Inr (), st\<lparr>calls := calls st @ [BringToFront page]\<rparr>))"

subsection \<open>Console and network access\<close>

text \<open>
  A getter returns the array stored under the page id, the array itself and not its
  contents, or a new empty array when none is stored. A clear stores a new empty array.
\<close>

definition getConsoleLogs :: "nat \<Rightarrow> BrowserManager \<Rightarrow> ref \<times> BrowserManager" where
  "getConsoleLogs pageId st =
     (case consoleLogs st pageId of
        Some logs \<Rightarrow> (logs, st)
      | None \<Rightarrow> (nextRef st, st\<lparr>consoleArrays := (consoleArrays st)(nextRef st := []),
                                 nextRef := nextRef st + 1\<rparr>))"

definition clearConsoleLogs :: "nat \<Rightarrow> BrowserManager \<Rightarrow> BrowserManager" where
  "clearConsoleLogs pageId st =
     st\<lparr>consoleLogs := (consoleLogs st)(pageId \<mapsto> nextRef st),
        consoleArrays := (consoleArrays st)(nextRef st := []),
        nextRef := nextRef st + 1\<rparr>"

definition getNetworkLogs :: "nat \<Rightarrow> BrowserManager \<Rightarrow> ref \<times> BrowserManager" where
  "getNetworkLogs pageId st =
     (case networkLogs st pageId of
        Some logs \<Rightarrow> (logs, st)
      | None \<Rightarrow> (nextRef st, st\<lparr>networkArrays := (networkArrays st)(nextRef st := []),
                                 nextRef := nextRef st + 1\<rparr>))"

definition clearNetworkLogs :: "nat \<Rightarrow> BrowserManager \<Rightarrow> BrowserManager" where
  "clearNetworkLogs pageId st =
     st\<lparr>networkLogs := (networkLogs st)(pageId \<mapsto> nextRef st),
        networkArrays := (networkArrays st)(nextRef st := []),
        nextRef := nextRef st + 1\<rparr>"

subsection \<open>Connection methods\<close>

text \<open>
  The library's answers while connecting: the contexts an attach to a debugging endpoint
  finds (or the error it raises), the context a persistent launch yields for a browser
  type and a profile directory, whether a launch of a browser type succeeds, whether the
  n-th poll of the debugging endpoint is answered with success, which files exist, and
  the \<^verbatim>\<open>LOCALAPPDATA\<close> variable.
\<close>

record driver =
  connectOverCDP :: "string \<Rightarrow> js_error + BrowserContext list"
  launchPersistentContext :: "engine \<Rightarrow> string \<Rightarrow> js_error + BrowserContext"
  launch :: "engine \<Rightarrow> js_error + unit"
  fetchOk :: "nat \<Rightarrow> bool"
  existsSync :: "string \<Rightarrow> bool"
  localAppData :: "string option"

text \<open>The context \<^verbatim>\<open>browser.newContext(...)\<close> creates: no page, no cookie, empty storage.\<close>

definition fresh_context :: "engine \<Rightarrow> BrowserContext" where
  "fresh_context e =
     \<lparr>ctx_engine = e, ctx_pages = [], page_origin = (\<lambda>_. []), ctx_cookies = [],
      localStorage = (\<lambda>_. Map.empty)\<rparr>"

definition registerAll :: "page_h list \<Rightarrow> BrowserManager \<Rightarrow> BrowserManager" where
  "registerAll ps st = fold on_page ps st"

text \<open>\<^verbatim>\<open>connectCDP(cdpUrl?)\<close>: attach, reuse the first context or create one, register its
  pages.\<close>

definition connectCDP :: "driver \<Rightarrow> string option \<Rightarrow> BrowserManager \<Rightarrow> (js_error + unit) \<times> BrowserManager" where
  "connectCDP drv cdpUrlArg st =
     (let url = (case cdpUrlArg of
                   Some u \<Rightarrow> u
                 | None \<Rightarrow> (case cdpUrl (options st) of Some u \<Rightarrow> u | None \<Rightarrow> ''http://localhost:9222''));
          st1 = st\<lparr>calls := calls st @ [ConnectOverCDP url]\<rparr>
      in case connectOverCDP drv url of
           Inl e \<Rightarrow> (Inl e, st1)
         | Inr contexts \<Rightarrow>
             (let st2 = st1\<lparr>browserInstance := Some Chromium\<rparr>;
                  (ctx, st3) = (case contexts of
                                  c # _ \<Rightarrow> (c, st2)
                                | [] \<Rightarrow> (fresh_context Chromium, st2\<lparr>calls := calls st2 @ [NewContext]\<rparr>))
              in (Inr (), registerAll (ctx_pages ctx) (st3\<lparr>browserContext := Some ctx\<rparr>))))"

text \<open>\<^verbatim>\<open>resolveChromePath()\<close>\<close>

text \<open>Path components joined by backslashes.\<close>

fun win_path :: "string list \<Rightarrow> string" where
  "win_path [] = []"
| "win_path [c] = c"
| "win_path (c # cs) = c @ [CHR 0x5C] @ win_path cs"

definition chrome_candidates :: "driver \<Rightarrow> string \<Rightarrow> string list" where
  "chrome_candidates drv ch =
     (let chrome =
        [win_path [''C:'', ''Program Files'', ''Google'', ''Chrome'', ''Application'', ''chrome.exe''],
         win_path [''C:'', ''Program Files (x86)'', ''Google'', ''Chrome'', ''Application'', ''chrome.exe''],
         win_path [(case localAppData drv of None \<Rightarrow> ''undefined'' | Some d \<Rightarrow> d),
                   ''Google'', ''Chrome'', ''Application'', ''chrome.exe'']]
      in if ch = ''chrome'' then chrome
         else if ch = ''chrome-beta'' then
           [win_path [''C:'', ''Program Files'', ''Google'', ''Chrome Beta'', ''Application'', ''chrome.exe''],
            win_path [''C:'', ''Program Files (x86)'', ''Google'', ''Chrome Beta'', ''Application'', ''chrome.exe'']]
         else if ch = ''msedge'' then
           [win_path [''C:'', ''Program Files (x86)'', ''Microsoft'', ''Edge'', ''Application'', ''msedge.exe''],
            win_path [''C:'', ''Program Files'', ''Microsoft'', ''Edge'', ''Application'', ''msedge.exe'']]
         else if ch = ''msedge-dev'' then
           [win_path [''C:'', ''Program Files (x86)'', ''Microsoft'', ''Edge Dev'', ''Application'', ''msedge.exe'']]
         else chrome)"

definition resolveChromePath :: "driver \<Rightarrow> BrowserManager \<Rightarrow> string" where
  "resolveChromePath drv st =
     (if truthy (executablePath (options st)) then the (executablePath (options st))
      else (let ch = (if truthy (channel (options st)) then the (channel (options st)) else ''chrome'')
            in case filter (existsSync drv) (chrome_candidates drv ch) of
                 p # _ \<Rightarrow> p
               | [] \<Rightarrow> if ch = ''msedge'' then ''msedge.exe'' else ''chrome.exe''))"

text \<open>
  The polling loop of \<^verbatim>\<open>spawnChromeAndConnect\<close>: \<open>waited\<close> grows by the interval of
  500 ms after each poll that is not answered with success, up to 15000 ms. The result is
  the value of \<open>waited\<close> when the loop ends.
\<close>

function wait_for_port :: "driver \<Rightarrow> nat \<Rightarrow> nat" where
  "wait_for_port drv waited =
     (if waited < 15000
      then (if fetchOk drv (waited div 500) then waited else wait_for_port drv (waited + 500))
      else waited)"
  by pat_completeness auto
termination
  by (relation "measure (\<lambda>(drv, waited). 15000 - waited)") auto

declare wait_for_port.simps [simp del]

text \<open>
  \<^verbatim>\<open>spawnChromeAndConnect(userDataDir)\<close>, with the default port 9222. The first part
  spawns the browser and polls its debugging endpoint; \<open>polls_made\<close> is the number of
  polls of a loop that ended with \<open>waited\<close>.
\<close>

definition polls_made :: "nat \<Rightarrow> nat" where
  "polls_made waited = (if waited < 15000 then waited div 500 + 1 else 30)"

definition spawn_args :: "string \<Rightarrow> BrowserManager \<Rightarrow> string list" where
  "spawn_args dir st =
     [''--remote-debugging-port=9222'', ''--user-data-dir='' @ dir,
      ''--disable-blink-features=AutomationControlled'']
     @ (if headless (options st) then [''--headless=new''] else [])"

definition spawn_and_wait :: "driver \<Rightarrow> string \<Rightarrow> BrowserManager \<Rightarrow> BrowserManager" where
  "spawn_and_wait drv dir st =
     (let chromePath = resolveChromePath drv st;
          args = spawn_args dir st
      in st\<lparr>chromeProcess := Some (chromePath, args),
            calls := calls st @ [Spawn chromePath args]
                     @ replicate (polls_made (wait_for_port drv 0))
                         (Fetch ''http://localhost:9222/json/version'')\<rparr>)"

definition spawnChromeAndConnect :: "driver \<Rightarrow> string \<Rightarrow> BrowserManager \<Rightarrow> (js_error + string) \<times> BrowserManager" where
  "spawnChromeAndConnect drv dir st =
     (let st1 = spawn_and_wait drv dir st
      in if wait_for_port drv 0 \<ge> 15000 then (Inl RecoveryTimeout, st1)
         else (case connectCDP drv (Some ''http://localhost:9222'') st1 of
                 (Inl e, st2) \<Rightarrow> (Inl e, st2)
               | (Inr u, st2) \<Rightarrow>
                   (Inr (''Launched real ''
                         @ (if truthy (channel (options st)) then the (channel (options st)) else ''chrome'')
                         @ '' with your profile and connected via CDP at http://localhost:9222''), st2)))"

text \<open>The \<^verbatim>\<open>catch\<close> clause of \<^verbatim>\<open>launchPersistent\<close>: what is thrown for an error of
  the library.\<close>

definition persistent_launch_error :: "js_error \<Rightarrow> js_error" where
  "persistent_launch_error err =
     (if message_includes err ''non-default data directory'' \<or> message_includes err ''remote debugging''
      then NeedsCdpFallback (the (message err))
      else if message_includes err ''lock'' \<or> message_includes err ''already running''
              \<or> message_includes err ''SingletonLock''
      then ProfileLocked (the (message err))
      else err)"

definition launchPersistent :: "driver \<Rightarrow> string option \<Rightarrow> BrowserManager \<Rightarrow> (js_error + unit) \<times> BrowserManager" where
  "launchPersistent drv userDataDirArg st =
     (let dir = (case userDataDirArg of
                   Some d \<Rightarrow> d
                 | None \<Rightarrow> (case userDataDir (options st) of Some d \<Rightarrow> d | None \<Rightarrow> []))
      in if dir = [] then (Inl UserDataDirRequired, st)
         else (let browserType = getBrowserType st;
                   st1 = st\<lparr>calls := calls st @ [LaunchPersistentContext browserType dir]\<rparr>
               in case launchPersistentContext drv browserType dir of
                    Inl err \<Rightarrow> (Inl (persistent_launch_error err), st1)
                  | Inr ctx \<Rightarrow>
                      (Inr (), registerAll (ctx_pages ctx)
                                 (st1\<lparr>browserContext := Some ctx,
                                      calls := calls st1 @ [AddInitScript]\<rparr>))))"

text \<open>\<^verbatim>\<open>applyRouteBlocking()\<close> installs one abort rule per blocked pattern.\<close>

definition applyRouteBlocking :: "BrowserManager \<Rightarrow> (js_error + unit) \<times> BrowserManager" where
  "applyRouteBlocking st =
     (case getContext st of
        Inl e \<Rightarrow> (Inl e, st)
      | Inr ctx \<Rightarrow> (Inr (), st\<lparr>calls := calls st @ map Route (blockedPatterns st)\<rparr>))"

definition launchTemporary :: "driver \<Rightarrow> BrowserManager \<Rightarrow> (js_error + unit) \<times> BrowserManager" where
  "launchTemporary drv st =
     (let browserType = getBrowserType st;
          st1 = st\<lparr>calls := calls st @ [Launch browserType]\<rparr>
      in case launch drv browserType of
           Inl e \<Rightarrow> (Inl e, st1)
         | Inr u \<Rightarrow>
             (let st2 = st1\<lparr>browserInstance := Some browserType,
                            browserContext := Some (fresh_context browserType),
                            calls := calls st1 @ [NewContext, AddInitScript]\<rparr>
              in if length (blockedPatterns st2) > 0 then applyRouteBlocking st2 else (Inr (), st2)))"

text \<open>\<^verbatim>\<open>connect()\<close>\<close>

definition connect :: "driver \<Rightarrow> BrowserManager \<Rightarrow> (js_error + string) \<times> BrowserManager" where
  "connect drv st =
     (if truthy (cdpUrl (options st))
      then (case connectCDP drv None st of
              (Inl e, st1) \<Rightarrow> (Inl e, st1)
            | (Inr u, st1) \<Rightarrow> (Inr (''Connected via CDP to '' @ the (cdpUrl (options st))), st1))
      else if truthy (userDataDir (options st))
      then (case launchPersistent drv None st of
              (Inr u, st1) \<Rightarrow>
                (Inr (''Launched persistent '' @ engine_name (requested_engine st)
                      @ '' with profile: '' @ the (userDataDir (options st))), st1)
            | (Inl err, st1) \<Rightarrow>
                if needsCdpFallback err
                then spawnChromeAndConnect drv (the (userDataDir (options st))) st1
                else (Inl err, st1))
      else (case connectCDP drv (Some ''http://localhost:9222'') st of
              (Inr u, st1) \<Rightarrow> (Inr ''Connected via CDP to http://localhost:9222'', st1)
            | (Inl e, st1) \<Rightarrow>
                (case launchTemporary drv st1 of
                   (Inl e', st2) \<Rightarrow> (Inl e', st2)
                 | (Inr u, st2) \<Rightarrow>
                     (Inr (''Launched '' @ engine_name (requested_engine st)
                           @ (if truthy (channel (options st))
                              then '' (channel: '' @ the (channel (options st)) @ '')'' else [])
                           @ (if truthy (device (options st))
                              then '' (device: '' @ the (device (options st)) @ '')'' else [])
                           @ (if truthy (proxyServer (options st))
                              then '' (proxy: '' @ the (proxyServer (options st)) @ '')'' else [])),
                      st2))))"

text \<open>\<^verbatim>\<open>close()\<close>\<close>

definition close :: "BrowserManager \<Rightarrow> BrowserManager" where
  "close st =
     st\<lparr>calls := calls st
          @ (if browserContext st \<noteq> None then [CtxClose] else [])
          @ (if browserInstance st \<noteq> None then [BrowserClose] else [])
          @ (if chromeProcess st \<noteq> None then [Kill] else []),
        chromeProcess := None,
        pages := [],
        consoleLogs := Map.empty,
        networkLogs := Map.empty,
        browserContext := None,
        browserInstance := None\<rparr>"

subsection \<open>Storage state\<close>

record origin_state =
  origin :: string
  entries :: "(string \<times> string) list"

record StorageState =
  ss_cookies :: "cookie list"
  ss_origins :: "origin_state list"

text \<open>The script \<^verbatim>\<open>loadStorageState\<close> evaluates in a page: when the page shows the
  origin, every entry is stored, in order, in the local storage of that origin.\<close>

definition set_items :: "(string \<times> string) list \<Rightarrow> (string \<rightharpoonup> string) \<Rightarrow> (string \<rightharpoonup> string)" where
  "set_items es m = fold (\<lambda>(name, v) m. m(name \<mapsto> v)) es m"

definition replay_entries :: "page_h \<Rightarrow> origin_state \<Rightarrow> BrowserContext \<Rightarrow> BrowserContext" where
  "replay_entries page os ctx =
     (if page_origin ctx page = origin os
      then ctx\<lparr>localStorage := (localStorage ctx)
              (origin os := set_items (entries os) (localStorage ctx (origin os)))\<rparr>
      else ctx)"

text \<open>One round of the loop over the origins of the snapshot.\<close>

definition load_origin :: "origin_state \<Rightarrow> BrowserContext \<times> action list \<Rightarrow> BrowserContext \<times> action list" where
  "load_origin os cs =
     (case cs of (ctx, acts) \<Rightarrow>
        (case ctx_pages ctx of
           [] \<Rightarrow> (ctx, acts)
         | page # _ \<Rightarrow> (replay_entries page os ctx, acts @ [Evaluate page (origin os) (entries os)])))"

text \<open>
  \<^verbatim>\<open>loadStorageState(filePath)\<close>. \<open>files\<close> gives, for a path, the snapshot the file parses
  to, or nothing when no file exists there; a snapshot without cookies or origins has
  the empty list.
\<close>

definition loadStorageState ::
  "(string \<rightharpoonup> StorageState) \<Rightarrow> string \<Rightarrow> BrowserManager \<Rightarrow> (js_error + unit) \<times> BrowserManager" where
  "loadStorageState files filePath st =
     (case files filePath of
        None \<Rightarrow> (Inl (FileNotFound filePath), st)
      | Some state \<Rightarrow>
          (case getContext st of
             Inl e \<Rightarrow> (Inl e, st)
           | Inr ctx \<Rightarrow>
               (let ctx1 = ctx\<lparr>ctx_cookies := ctx_cookies ctx @ ss_cookies state\<rparr>;
                    (ctx2, acts) = fold load_origin (ss_origins state)
                                     (ctx1, calls st @ [AddCookies (ss_cookies state)])
                in (Inr (), st\<lparr>browserContext := Some ctx2, calls := acts\<rparr>))))"

subsection \<open>Runs of the manager\<close>

text \<open>
  One step is a call of a public method or a listener the library runs. A page listener
  of page id \<open>i\<close> exists once \<^verbatim>\<open>setupPageTracking\<close> has run for \<open>i\<close>, which is the case
  for exactly the ids handed out; the page-created listener exists on the connected
  context. The step \<open>PageCreated\<close> is a page the browser opens by itself, a popup or a
  tab the user opens.
\<close>

datatype op =
    Connect driver
  | Close
  | NewPage "js_error + page_h" "string option" "js_error option"
  | GetOrCreatePage "js_error + page_h" "nat option"
  | ClosePage nat
  | FocusPage nat
  | GetConsoleLogs nat
  | ClearConsoleLogs nat
  | GetNetworkLogs nat
  | ClearNetworkLogs nat
  | LoadStorageState "string \<rightharpoonup> StorageState" string
  | PageCreated page_h
  | ConsoleEvent nat ConsoleMessage int
  | RequestEvent nat Request int
  | ResponseEvent nat Response int int
  | PageClosed nat

definition tracked :: "BrowserManager \<Rightarrow> nat \<Rightarrow> bool" where
  "tracked st i \<longleftrightarrow> i \<in> set (assignedIds st)"

fun step :: "op \<Rightarrow> BrowserManager \<Rightarrow> BrowserManager" where
  "step (Connect drv) st = snd (connect drv st)"
| "step Close st = close st"
| "step (NewPage created url nav) st = snd (newPage created url nav st)"
| "step (GetOrCreatePage created pageId) st = snd (getOrCreatePage created pageId st)"
| "step (ClosePage i) st = snd (closePage i st)"
| "step (FocusPage i) st = snd (focusPage i st)"
| "step (GetConsoleLogs i) st = snd (getConsoleLogs i st)"
| "step (ClearConsoleLogs i) st = clearConsoleLogs i st"
| "step (GetNetworkLogs i) st = snd (getNetworkLogs i st)"
| "step (ClearNetworkLogs i) st = clearNetworkLogs i st"
| "step (LoadStorageState files filePath) st = snd (loadStorageState files filePath st)"
| "step (PageCreated page) st = (if browserContext st \<noteq> None then on_page page st else st)"
| "step (ConsoleEvent i msg now) st = (if tracked st i then on_console i msg now st else st)"
| "step (RequestEvent i request now) st = (if tracked st i then on_request i request now st else st)"
| "step (ResponseEvent i response now now') st =
     (if tracked st i then on_response i response now now' st else st)"
| "step (PageClosed i) st = (if tracked st i then on_close i st else st)"

definition run :: "op list \<Rightarrow> BrowserManager \<Rightarrow> BrowserManager" where
  "run ops st = fold step ops st"

subsection \<open>Example environments\<close>

text \<open>The options of \<^verbatim>\<open>new BrowserManager()\<close>, called without an argument.\<close>

definition no_options :: BrowserConnectionOptions where
  "no_options =
     \<lparr>cdpUrl = None, userDataDir = None, executablePath = None, headless = False,
      browser = None, proxyServer = None, device = None, channel = None\<rparr>"

text \<open>A machine on which no debugging endpoint listens and every launch succeeds.\<close>

definition offline_driver :: driver where
  "offline_driver =
     \<lparr>connectOverCDP = (\<lambda>_. Inl (DriverError (Some ''connect ECONNREFUSED'') False)),
      launchPersistentContext = (\<lambda>e _. Inr (fresh_context e)),
      launch = (\<lambda>_. Inr ()),
      fetchOk = (\<lambda>_. False),
      existsSync = (\<lambda>_. False),
      localAppData = None\<rparr>"

text \<open>A manager connected on that machine, which ends with a temporary browser.\<close>

definition offline_session :: BrowserManager where
  "offline_session = snd (connect offline_driver (new_manager no_options))"

text \<open>The same manager after one call of \<^verbatim>\<open>newPage()\<close>, answered with page 10, which
  is then tracked under the ids 1 and 2.\<close>

definition one_page_session :: BrowserManager where
  "one_page_session =
     run [Connect offline_driver, NewPage (Inr 10) None None] (new_manager no_options)"

text \<open>A console message, and 501 of them at the times 0 to 500.\<close>

definition hello :: ConsoleMessage where
  "hello = \<lparr>m_type = ''log'', m_text = ''hello'', m_location = None\<rparr>"

definition console_flood :: "(ConsoleMessage \<times> int) list" where
  "console_flood = map (\<lambda>t. (hello, int t)) [0..<501]"

text \<open>A response nothing was requested for.\<close>

definition pong :: Response where
  "pong = \<lparr>p_url = ''http://a.test/'', p_status = 200\<rparr>"


definition profile_options :: BrowserConnectionOptions where
  "profile_options = no_options\<lparr>userDataDir := Some ''/home/u/profile''\<rparr>"

text \<open>A machine on which the profile directory is in use by a running browser.\<close>

definition locked_driver :: driver where
  "locked_driver =
     offline_driver\<lparr>launchPersistentContext :=
       (\<lambda>_ _. Inl (DriverError (Some ''Failed to create a ProcessSingleton: SingletonLock exists'') False))\<rparr>"

text \<open>
  A running browser with two tabs, page 10 on \<^verbatim>\<open>https://a.test\<close> and page 11 on
  \<^verbatim>\<open>https://b.test\<close>, a machine on which its debugging endpoint listens, and the
  manager attached to it.
\<close>

definition two_tab_context :: BrowserContext where
  "two_tab_context =
     \<lparr>ctx_engine = Chromium, ctx_pages = [10, 11],
      page_origin = (\<lambda>p. if p = 10 then ''https://a.test'' else ''https://b.test''),
      ctx_cookies = [], localStorage = (\<lambda>_. Map.empty)\<rparr>"

definition two_tab_driver :: driver where
  "two_tab_driver = offline_driver\<lparr>connectOverCDP := (\<lambda>_. Inr [two_tab_context])\<rparr>"

definition two_tab_session :: BrowserManager where
  "two_tab_session = snd (connect two_tab_driver (new_manager no_options))"

text \<open>A saved state with one cookie and one local-storage entry for each of the two
  origins, in the file \<^verbatim>\<open>state.json\<close>.\<close>

definition saved_state :: StorageState where
  "saved_state =
     \<lparr>ss_cookies = [\<lparr>ck_name = ''sid'', ck_value = ''1'', ck_domain = ''a.test''\<rparr>],
      ss_origins = [\<lparr>origin = ''https://a.test'', entries = [(''ka'', ''va'')]\<rparr>,
                    \<lparr>origin = ''https://b.test'', entries = [(''kb'', ''vb'')]\<rparr>]\<rparr>"

definition saved_files :: "string \<rightharpoonup> StorageState" where
  "saved_files = [''state.json'' \<mapsto> saved_state]"

subsection \<open>Invariants of runs\<close>

text \<open>
  \<open>extends st st'\<close>: from \<open>st\<close> to \<open>st'\<close> the ids handed out are, in order, the values the
  counter passed through, and nothing else changed the history or the counter.
\<close>

definition extends :: "BrowserManager \<Rightarrow> BrowserManager \<Rightarrow> bool" where
  "extends st st' \<longleftrightarrow>
     nextPageId st \<le> nextPageId st' \<and>
     assignedIds st' = assignedIds st @ [nextPageId st ..< nextPageId st']"

text \<open>The counter is positive, and every key of the registry is positive and below the
  counter, hence an id handed out earlier.\<close>

definition keys_below :: "BrowserManager \<Rightarrow> bool" where
  "keys_below st \<longleftrightarrow>
     0 < nextPageId st \<and> list_all (\<lambda>k. 0 < k \<and> k < nextPageId st) (map fst (pages st))"

text \<open>A connection that succeeds leaves a context, and when it registers no page the
  counter is where it was.\<close>

definition connected_fresh :: "BrowserManager \<Rightarrow> BrowserManager \<Rightarrow> bool" where
  "connected_fresh st st' \<longleftrightarrow>
     browserContext st' \<noteq> None \<and> (pages st' = [] \<longrightarrow> nextPageId st' = nextPageId st)"

text \<open>No log array holds more than 500 entries.\<close>

definition bounded :: "BrowserManager \<Rightarrow> bool" where
  "bounded st \<longleftrightarrow> (\<forall>r. length (consoleArrays st r) \<le> 500 \<and> length (networkArrays st r) \<le> 500)"

subsection \<open>The reach of a replay\<close>

text \<open>The entries a snapshot holds for an origin, in the order of the snapshot.\<close>

definition entries_for :: "string \<Rightarrow> origin_state list \<Rightarrow> (string \<times> string) list" where
  "entries_for orig oss = concat (map entries (filter (\<lambda>os. origin os = orig) oss))"

text \<open>The origin the replay can reach: the one shown by the first page of the context.\<close>

definition first_page_shows :: "BrowserContext \<Rightarrow> string \<Rightarrow> bool" where
  "first_page_shows ctx orig \<longleftrightarrow>
     (case ctx_pages ctx of [] \<Rightarrow> False | page # _ \<Rightarrow> page_origin ctx page = orig)"

section \<open>Properties of the interaction helpers\<close>










subsection \<open>Pointer paths\<close>

lemma length_generateMousePath: "length (generateMousePath rnd k s e n) = n + 1"
  by (simp add: generateMousePath_def Let_def)

lemma move_steps_bounds: "5 \<le> move_steps s e \<and> move_steps s e \<le> 25"
proof -
  have "5 \<le> nat (max 5 (min 25 z)) \<and> nat (max 5 (min 25 z)) \<le> 25" for z :: int
    by linarith
  then show ?thesis by (simp only: move_steps_def Let_def)
qed

lemma bezierPoint_0: "bezierPoint p0 p1 p2 p3 0 = p0"
  by (simp add: bezierPoint_def)

lemma bezierPoint_1: "bezierPoint p0 p1 p2 p3 1 = p3"
  by (simp add: bezierPoint_def)

lemma ease_0: "ease 0 = 0"
  by (simp add: ease_def)

lemma ease_1: "ease 1 = 1"
  by (simp add: ease_def)

text \<open>A jitter below one pixel followed by rounding moves a coordinate by less than a
  pixel and a half.\<close>

lemma jitter_round:
  assumes "unit_draw r"
  shows "\<bar>of_int (js_round (v + randf (- 1) 1 r)) - v\<bar> \<le> 3 / 2"
proof -
  define j where "j = randf (- 1) 1 r"
  have j: "- 1 \<le> j" "j < 1" using assms by (simp_all add: j_def randf_def unit_draw_def)
  have "of_int \<lfloor>v + j + 1 / 2\<rfloor> \<le> v + j + 1 / 2" by (rule of_int_floor_le)
  moreover have "v + j + 1 / 2 < of_int \<lfloor>v + j + 1 / 2\<rfloor> + 1" by linarith
  ultimately show ?thesis using j unfolding js_round_def j_def[symmetric] by linarith
qed

lemma path_first:
  assumes "0 < n"
  shows "hd (generateMousePath rnd k s e n) =
     \<lparr>px = of_int (js_round (px s + randf (- 1) 1 (rnd (k + 8)))),
      py = of_int (js_round (py s + randf (- 1) 1 (rnd (k + 9))))\<rparr>"
  by (simp add: generateMousePath_def Let_def upt_rec[of 0] path_sample_def ease_0 bezierPoint_0)

lemma path_last:
  assumes "0 < n"
  shows "last (generateMousePath rnd k s e n) =
     \<lparr>px = of_int (js_round (px e + randf (- 1) 1 (rnd (k + 8 + 2 * n)))),
      py = of_int (js_round (py e + randf (- 1) 1 (rnd (k + 9 + 2 * n))))\<rparr>"
  using assms
  by (simp add: generateMousePath_def Let_def last_map path_sample_def ease_1 bezierPoint_1)

lemma humanMouseMove_path:
  "map fst (fst (humanMouseMove rnd k (Some s) vp tx ty)) =
     generateMousePath rnd k s \<lparr>px = tx, py = ty\<rparr> (move_steps s \<lparr>px = tx, py = ty\<rparr>)"
  by (simp add: humanMouseMove_def Let_def o_def map_nth)

text \<open>
  Claim C6, as the code has it. A move from a remembered position \<open>s\<close> to \<open>(tx, ty)\<close>
  uses \<open>steps = max 5 (min 25 (floor (distance / 30)))\<close> steps, between 5 and 25, and
  visits \<open>steps + 1\<close> positions, between 6 and 26, because the sampling loop includes both
  ends. Each coordinate of the first position is within a pixel and a half of the start
  and each coordinate of the last position within a pixel and a half of the target.
\<close>

theorem motion_path_ends_and_count:
  assumes "\<forall>n. unit_draw (rnd n)"
  shows "let e = \<lparr>px = tx, py = ty\<rparr>;
             steps = move_steps s e;
             path = map fst (fst (humanMouseMove rnd k (Some s) vp tx ty))
         in 5 \<le> steps \<and> steps \<le> 25 \<and>
            steps = nat (max 5 (min 25 \<lfloor>sqrt ((tx - px s) ^ 2 + (ty - py s) ^ 2) / 30\<rfloor>)) \<and>
            length path = steps + 1 \<and> 6 \<le> length path \<and> length path \<le> 26 \<and>
            \<bar>px (hd path) - px s\<bar> \<le> 3 / 2 \<and> \<bar>py (hd path) - py s\<bar> \<le> 3 / 2 \<and>
            \<bar>px (last path) - tx\<bar> \<le> 3 / 2 \<and> \<bar>py (last path) - ty\<bar> \<le> 3 / 2"
proof -
  let ?e = "\<lparr>px = tx, py = ty\<rparr>"
  let ?steps = "move_steps s ?e"
  let ?path = "map fst (fst (humanMouseMove rnd k (Some s) vp tx ty))"
  have path: "?path = generateMousePath rnd k s ?e ?steps"
    by (rule humanMouseMove_path)
  have b: "5 \<le> ?steps" "?steps \<le> 25" using move_steps_bounds[of s ?e] by simp_all
  then have pos: "0 < ?steps" by simp
  have st: "?steps = nat (max 5 (min 25 \<lfloor>sqrt ((tx - px s) ^ 2 + (ty - py s) ^ 2) / 30\<rfloor>))"
    by (simp add: move_steps_def)
  have len: "length ?path = ?steps + 1" by (simp only: path length_generateMousePath)
  have len2: "6 \<le> length ?path" "length ?path \<le> 26" using b unfolding len by simp_all
  have d: "unit_draw (rnd i)" for i using assms by simp
  have f: "\<bar>px (hd ?path) - px s\<bar> \<le> 3 / 2" "\<bar>py (hd ?path) - py s\<bar> \<le> 3 / 2"
    unfolding path path_first[OF pos] using jitter_round[OF d] by simp_all
  have l: "\<bar>px (last ?path) - tx\<bar> \<le> 3 / 2" "\<bar>py (last ?path) - ty\<bar> \<le> 3 / 2"
    unfolding path path_last[OF pos] using jitter_round[OF d] by simp_all
  show ?thesis unfolding Let_def
    by (intro conjI) (fact b st len len2 f l)+
qed

theorem motion_path_ends_and_count_witness:
  "(\<forall>n. unit_draw ((\<lambda>_. 0) n)) \<and>
   move_steps \<lparr>px = 0, py = 0\<rparr> \<lparr>px = 750, py = 0\<rparr> = 25 \<and>
   length (map fst (fst (humanMouseMove (\<lambda>_. 0) 0 (Some \<lparr>px = 0, py = 0\<rparr>) None 750 0))) = 26 \<and>
   \<bar>px (hd (map fst (fst (humanMouseMove (\<lambda>_. 0) 0 (Some \<lparr>px = 0, py = 0\<rparr>) None 750 0)))) - 0\<bar>
      \<le> 3 / 2"
  using motion_path_ends_and_count [where rnd = "\<lambda>_. 0" and tx = 750 and ty = 0 and s = "\<lparr>px = 0, py = 0\<rparr>" and k = 0 and vp = None]
  by (simp add: unit_draw_def Let_def move_steps_def)

text \<open>The count of positions is not bounded by 25: a move of 750 pixels visits 26.\<close>

theorem motion_path_count_counterexample:
  "\<not> length (map fst (fst (humanMouseMove (\<lambda>_. 0) 0 (Some \<lparr>px = 0, py = 0\<rparr>) None 750 0))) \<le> 25"
  by (simp add: humanMouseMove_path length_generateMousePath move_steps_def)

section \<open>Properties of the browser manager\<close>

subsection \<open>Registration of pages\<close>

lemma registerPage_simps:
  "fst (registerPage page st) = nextPageId st"
  "pages (snd (registerPage page st)) = AList.update (nextPageId st) page (pages st)"
  "nextPageId (snd (registerPage page st)) = nextPageId st + 1"
  "assignedIds (snd (registerPage page st)) = assignedIds st @ [nextPageId st]"
  "calls (snd (registerPage page st)) = calls st"
  "browserContext (snd (registerPage page st)) = browserContext st"
  "options (snd (registerPage page st)) = options st"
  by (simp_all add: registerPage_def Let_def setupPageTracking_def)

lemma extends_refl: "extends st st"
  by (simp add: extends_def)

lemma extends_same:
  "nextPageId st' = nextPageId st \<Longrightarrow> assignedIds st' = assignedIds st \<Longrightarrow> extends st st'"
  by (simp add: extends_def)

lemma extends_trans:
  assumes "extends a b" and "extends b c"
  shows "extends a c"
proof -
  from assms have le: "nextPageId a \<le> nextPageId b" "nextPageId b \<le> nextPageId c"
    by (simp_all add: extends_def)
  then have "[nextPageId a ..< nextPageId c] = [nextPageId a ..< nextPageId b] @ [nextPageId b ..< nextPageId c]"
    by (metis le_Suc_ex upt_add_eq_append)
  with assms le show ?thesis by (simp add: extends_def)
qed

lemma extends_from:
  "nextPageId a = nextPageId st \<Longrightarrow> assignedIds a = assignedIds st \<Longrightarrow> extends a st' \<Longrightarrow> extends st st'"
  by (simp add: extends_def)

lemma extends_registerPage: "extends st (snd (registerPage page st))"
  by (simp add: extends_def registerPage_simps)

lemma extends_on_page: "extends st (on_page page st)"
  by (simp add: on_page_def extends_registerPage)

lemma extends_registerAll: "extends st (registerAll ps st)"
proof (induction ps arbitrary: st)
  case Nil
  show ?case by (simp add: registerAll_def extends_refl)
next
  case (Cons p ps)
  have "extends (on_page p st) (registerAll ps (on_page p st))" by (rule Cons.IH)
  with extends_on_page[of st p] show ?case
    by (auto simp: registerAll_def intro: extends_trans)
qed

lemma extends_newPage: "extends st (snd (newPage created url nav st))"
  by (auto simp: newPage_def Let_def case_prod_beta extends_refl extends_def registerPage_simps
        on_page_def split: sum.splits option.splits)

lemma extends_getOrCreatePage: "extends st (snd (getOrCreatePage created pageId st))"
  by (auto simp: getOrCreatePage_def Let_def extends_refl extends_newPage split: option.splits)

lemma extends_closePage: "extends st (snd (closePage i st))"
  by (auto simp: closePage_def extends_def split: option.splits)

lemma extends_focusPage: "extends st (snd (focusPage i st))"
  by (auto simp: focusPage_def extends_def split: option.splits)

lemma extends_logs:
  "extends st (snd (getConsoleLogs i st))"
  "extends st (clearConsoleLogs i st)"
  "extends st (snd (getNetworkLogs i st))"
  "extends st (clearNetworkLogs i st)"
  by (auto simp: getConsoleLogs_def clearConsoleLogs_def getNetworkLogs_def clearNetworkLogs_def
        extends_def split: option.splits)

lemma extends_listeners:
  "extends st (on_console i msg now st)"
  "extends st (on_request i request now st)"
  "extends st (on_response i response now now' st)"
  "extends st (on_close i st)"
  by (auto simp: on_console_def on_request_def on_response_def on_close_def Let_def
        extends_def split: option.splits)

lemma extends_loadStorageState: "extends st (snd (loadStorageState files filePath st))"
  by (auto simp: loadStorageState_def getContext_def Let_def case_prod_beta extends_def
        split: option.splits sum.splits)

lemma extends_close: "extends st (close st)"
  by (simp add: close_def extends_def)

lemma extends_registerAll_frame:
  "nextPageId a = nextPageId st \<Longrightarrow> assignedIds a = assignedIds st \<Longrightarrow> extends st (registerAll ps a)"
  using extends_registerAll[of a ps] by (simp add: extends_def)

lemma extends_connectCDP: "extends st (snd (connectCDP drv u st))"
  by (simp add: connectCDP_def Let_def extends_registerAll_frame extends_same
        split: sum.splits list.splits)

lemma extends_connectCDP_frame:
  "nextPageId a = nextPageId st \<Longrightarrow> assignedIds a = assignedIds st
     \<Longrightarrow> extends st (snd (connectCDP drv u a))"
  using extends_connectCDP[of a drv u] by (simp add: extends_def)

lemma extends_launchPersistent: "extends st (snd (launchPersistent drv u st))"
  by (simp add: launchPersistent_def Let_def extends_registerAll_frame extends_same
        split: sum.splits)

lemma extends_launchTemporary: "extends st (snd (launchTemporary drv st))"
  by (simp add: launchTemporary_def applyRouteBlocking_def getContext_def Let_def extends_same
        split: sum.splits)

lemma extends_launchTemporary_frame:
  "nextPageId a = nextPageId st \<Longrightarrow> assignedIds a = assignedIds st
     \<Longrightarrow> extends st (snd (launchTemporary drv a))"
  using extends_launchTemporary[of a drv] by (simp add: extends_def)

lemma spawn_and_wait_ids:
  "nextPageId (spawn_and_wait drv dir st) = nextPageId st"
  "assignedIds (spawn_and_wait drv dir st) = assignedIds st"
  by (simp_all add: spawn_and_wait_def Let_def)

lemma extends_spawn: "extends st (snd (spawnChromeAndConnect drv dir st))"
  by (simp add: spawnChromeAndConnect_def Let_def case_prod_beta extends_connectCDP_frame
        extends_same spawn_and_wait_ids split: sum.splits)

lemma extends_spawn_frame:
  "nextPageId a = nextPageId st \<Longrightarrow> assignedIds a = assignedIds st
     \<Longrightarrow> extends st (snd (spawnChromeAndConnect drv dir a))"
  using extends_spawn[of a drv dir] by (simp add: extends_def)

lemma extends_connect: "extends st (snd (connect drv st))"
proof -
  have A: "extends st (snd (connectCDP drv u st))" for u by (rule extends_connectCDP)
  have B: "extends st (snd (launchPersistent drv None st))" by (rule extends_launchPersistent)
  have C: "extends st (snd (spawnChromeAndConnect drv d (snd (launchPersistent drv None st))))" for d
    by (rule extends_trans[OF B extends_spawn])
  have D: "extends st (snd (launchTemporary drv (snd (connectCDP drv u st))))" for u
    by (rule extends_trans[OF A extends_launchTemporary])
  show ?thesis
    unfolding connect_def
    by (simp add: case_prod_beta A B C D split: sum.splits)
qed

lemma extends_step: "extends st (step x st)"
  by (cases x)
     (simp_all add: extends_connect extends_close extends_newPage extends_getOrCreatePage
        extends_closePage extends_focusPage extends_logs extends_loadStorageState
        extends_on_page extends_listeners extends_refl)

lemma extends_run: "extends st (run ops st)"
proof (induction ops arbitrary: st)
  case Nil
  show ?case by (simp add: run_def extends_refl)
next
  case (Cons x ops)
  have "extends (step x st) (run ops (step x st))" by (rule Cons.IH)
  with extends_step[of st x] show ?case
    unfolding run_def by (auto intro: extends_trans)
qed

lemma run_append: "run (xs @ ys) st = run ys (run xs st)"
  by (simp add: run_def)

lemma keys_below_iff:
  "keys_below st \<longleftrightarrow>
     0 < nextPageId st \<and> (\<forall>k \<in> fst ` set (pages st). 0 < k \<and> k < nextPageId st)"
  by (auto simp: keys_below_def list_all_iff)

lemma keys_below_frame:
  "pages a = pages st \<Longrightarrow> nextPageId a = nextPageId st \<Longrightarrow> keys_below a = keys_below st"
  by (simp add: keys_below_def)

lemma keys_below_registerPage: "keys_below st \<Longrightarrow> keys_below (snd (registerPage page st))"
  by (auto simp: keys_below_iff registerPage_simps dom_update)

lemma keys_below_on_page: "keys_below st \<Longrightarrow> keys_below (on_page page st)"
  by (simp add: on_page_def keys_below_registerPage)

lemma keys_below_registerAll: "keys_below st \<Longrightarrow> keys_below (registerAll ps st)"
  by (induction ps arbitrary: st) (simp_all add: registerAll_def keys_below_on_page)

lemma keys_below_updates:
  "keys_below (calls_update f st) = keys_below st"
  "keys_below (browserContext_update g st) = keys_below st"
  "keys_below (browserInstance_update h st) = keys_below st"
  "keys_below (chromeProcess_update k st) = keys_below st"
  by (simp_all add: keys_below_def)

lemma keys_below_newPage:
  assumes "keys_below st"
  shows "keys_below (snd (newPage created url nav st))"
proof -
  have f: "keys_below (snd (registerPage page (on_page page (st\<lparr>browserContext := c, calls := k\<rparr>))))"
    for page c k
    using assms by (intro keys_below_registerPage keys_below_on_page) (simp add: keys_below_def)
  note g = keys_below_updates
  show ?thesis
    using assms f
    by (simp add: newPage_def Let_def case_prod_beta g split: sum.splits option.splits)
qed

lemma keys_below_getOrCreatePage:
  "keys_below st \<Longrightarrow> keys_below (snd (getOrCreatePage created pageId st))"
  by (auto simp: getOrCreatePage_def Let_def keys_below_newPage split: option.splits)

lemma keys_below_closePage: "keys_below st \<Longrightarrow> keys_below (snd (closePage i st))"
  by (auto simp: closePage_def keys_below_def list_all_iff AList.delete_eq split: option.splits)

lemma keys_below_focusPage: "keys_below st \<Longrightarrow> keys_below (snd (focusPage i st))"
  by (auto simp: focusPage_def keys_below_def split: option.splits)

lemma keys_below_logs:
  "keys_below st \<Longrightarrow> keys_below (snd (getConsoleLogs i st))"
  "keys_below st \<Longrightarrow> keys_below (clearConsoleLogs i st)"
  "keys_below st \<Longrightarrow> keys_below (snd (getNetworkLogs i st))"
  "keys_below st \<Longrightarrow> keys_below (clearNetworkLogs i st)"
  by (auto simp: getConsoleLogs_def clearConsoleLogs_def getNetworkLogs_def clearNetworkLogs_def
        keys_below_def split: option.splits)

lemma keys_below_listeners:
  "keys_below st \<Longrightarrow> keys_below (on_console i msg now st)"
  "keys_below st \<Longrightarrow> keys_below (on_request i request now st)"
  "keys_below st \<Longrightarrow> keys_below (on_response i response now now' st)"
  "keys_below st \<Longrightarrow> keys_below (on_close i st)"
  by (auto simp: on_console_def on_request_def on_response_def on_close_def Let_def
        keys_below_def split: option.splits)

lemma keys_below_loadStorageState:
  "keys_below st \<Longrightarrow> keys_below (snd (loadStorageState files filePath st))"
  by (auto simp: loadStorageState_def getContext_def Let_def case_prod_beta keys_below_def
        split: option.splits sum.splits)

lemma keys_below_close: "keys_below st \<Longrightarrow> keys_below (close st)"
  by (simp add: close_def keys_below_def)

lemma keys_below_connectCDP: "keys_below st \<Longrightarrow> keys_below (snd (connectCDP drv u st))"
  by (simp add: connectCDP_def Let_def keys_below_registerAll keys_below_updates
        split: sum.splits list.splits)

lemma keys_below_launchPersistent: "keys_below st \<Longrightarrow> keys_below (snd (launchPersistent drv u st))"
  by (simp add: launchPersistent_def Let_def keys_below_registerAll keys_below_updates
        split: sum.splits)

lemma keys_below_launchTemporary: "keys_below st \<Longrightarrow> keys_below (snd (launchTemporary drv st))"
  by (simp add: launchTemporary_def applyRouteBlocking_def getContext_def Let_def
        keys_below_updates split: sum.splits)

lemma keys_below_spawn_and_wait: "keys_below st \<Longrightarrow> keys_below (spawn_and_wait drv dir st)"
  by (simp add: spawn_and_wait_def Let_def keys_below_def)

lemma keys_below_spawn: "keys_below st \<Longrightarrow> keys_below (snd (spawnChromeAndConnect drv dir st))"
  by (simp add: spawnChromeAndConnect_def Let_def case_prod_beta keys_below_connectCDP
        keys_below_spawn_and_wait split: sum.splits)

lemma keys_below_connect: "keys_below st \<Longrightarrow> keys_below (snd (connect drv st))"
  unfolding connect_def
  by (simp add: case_prod_beta keys_below_connectCDP keys_below_launchPersistent
        keys_below_launchTemporary keys_below_spawn split: sum.splits)

lemma keys_below_step: "keys_below st \<Longrightarrow> keys_below (step x st)"
  by (cases x)
     (simp_all add: keys_below_connect keys_below_close keys_below_newPage
        keys_below_getOrCreatePage keys_below_closePage keys_below_focusPage keys_below_logs
        keys_below_loadStorageState keys_below_on_page keys_below_listeners)

lemma keys_below_run: "keys_below st \<Longrightarrow> keys_below (run ops st)"
  by (induction ops arbitrary: st) (simp_all add: run_def keys_below_step)

lemma keys_below_new: "keys_below (new_manager opts)"
  by (simp add: keys_below_def new_manager_def)

subsection \<open>The example session\<close>

lemma offline_connect:
  "connect offline_driver (new_manager no_options) = (Inr ''Launched chromium'', offline_session)"
  by (simp add: offline_session_def connect_def connectCDP_def launchTemporary_def
        new_manager_def no_options_def offline_driver_def truthy_def Let_def getBrowserType_def
        requested_engine_def engine_name_def)

lemma offline_session_fields:
  "pages offline_session = []"
  "nextPageId offline_session = 1"
  "assignedIds offline_session = []"
  "browserContext offline_session = Some (fresh_context Chromium)"
  "browserInstance offline_session = Some Chromium"
  "calls offline_session =
     [ConnectOverCDP ''http://localhost:9222'', Launch Chromium, NewContext, AddInitScript]"
  "consoleLogs offline_session = Map.empty"
  "networkLogs offline_session = Map.empty"
  "nextRef offline_session = 0"
  by (simp_all add: offline_session_def connect_def connectCDP_def launchTemporary_def
        new_manager_def no_options_def offline_driver_def truthy_def Let_def getBrowserType_def)

subsection \<open>Page ids\<close>

lemma run_ids:
  "assignedIds (run ops (new_manager opts)) = [1 ..< nextPageId (run ops (new_manager opts))]"
  using extends_run[of "new_manager opts" ops] by (simp add: extends_def new_manager_def)

lemma later_ids:
  assumes "extends st st'" and "i < nextPageId st"
  shows "\<exists>new. assignedIds st' = assignedIds st @ new \<and> (\<forall>j \<in> set new. i < j)"
  using assms by (auto simp: extends_def)

text \<open>
  Claim C4. In every run of a manager the ids handed out are 1, 2, 3 and so on in the
  order of assignment: positive, pairwise distinct and strictly increasing. Every key of
  the registry is one of them. After a page with an id handed out earlier is closed, every
  id handed out later, whatever happens next, is greater than the closed one.
\<close>

theorem page_ids_increasing_never_reused:
  "let st = run ops (new_manager opts) in
     assignedIds st = [1 ..< nextPageId st] \<and>
     sorted_wrt (<) (assignedIds st) \<and> distinct (assignedIds st) \<and>
     (\<forall>i \<in> set (assignedIds st). 0 < i) \<and>
     (\<forall>k \<in> fst ` set (pages st). k \<in> set (assignedIds st)) \<and>
     (\<forall>i \<in> set (assignedIds st). \<forall>later.
        \<exists>new. assignedIds (run later (snd (closePage i st))) = assignedIds st @ new \<and>
              (\<forall>j \<in> set new. i < j))"
proof -
  define st where "st = run ops (new_manager opts)"
  have ids: "assignedIds st = [1 ..< nextPageId st]" unfolding st_def by (rule run_ids)
  have kb: "keys_below st" unfolding st_def by (intro keys_below_run keys_below_new)
  have keys: "\<forall>k \<in> fst ` set (pages st). k \<in> set (assignedIds st)"
    using kb unfolding ids keys_below_iff by auto
  have later: "\<exists>new. assignedIds (run later (snd (closePage i st))) = assignedIds st @ new \<and>
              (\<forall>j \<in> set new. i < j)" if "i \<in> set (assignedIds st)" for i later
  proof (rule later_ids)
    show "extends st (run later (snd (closePage i st)))"
      by (rule extends_trans[OF extends_closePage extends_run])
    show "i < nextPageId st" using that unfolding ids by simp
  qed
  have "sorted_wrt (<) (assignedIds st)" "distinct (assignedIds st)"
    "\<forall>i \<in> set (assignedIds st). 0 < i"
    unfolding ids by simp_all
  with ids keys later show ?thesis unfolding Let_def st_def[symmetric] by blast
qed

lemma example_run:
  "run [Connect offline_driver, NewPage (Inr 10) None None, NewPage (Inr 11) None None]
       (new_manager no_options)
     = run [NewPage (Inr 10) None None, NewPage (Inr 11) None None] offline_session"
  by (simp add: run_def offline_session_def)

lemma example_run_fields:
  "assignedIds (run [NewPage (Inr 10) None None, NewPage (Inr 11) None None] offline_session)
     = [1, 2, 3, 4]"
  "pages (run [NewPage (Inr 10) None None, NewPage (Inr 11) None None] offline_session)
     = [(1, 10), (2, 10), (3, 11), (4, 11)]"
  "nextPageId (run [NewPage (Inr 10) None None, NewPage (Inr 11) None None] offline_session) = 5"
  "browserContext (run [NewPage (Inr 10) None None, NewPage (Inr 11) None None] offline_session)
     = Some ((fresh_context Chromium)\<lparr>ctx_pages := [10, 11]\<rparr>)"
  by (simp_all add: run_def newPage_def getContext_def offline_session_fields Let_def
        case_prod_beta truthy_def registerPage_simps on_page_def fresh_context_def)

theorem page_ids_increasing_never_reused_witness:
  "assignedIds (run [Connect offline_driver, NewPage (Inr 10) None None, NewPage (Inr 11) None None]
                  (new_manager no_options)) = [1, 2, 3, 4] \<and>
   map fst (pages (run [Connect offline_driver, NewPage (Inr 10) None None, NewPage (Inr 11) None None]
                  (new_manager no_options))) = [1, 2, 3, 4] \<and>
   assignedIds (run [NewPage (Inr 12) None None]
                  (snd (closePage 1
                     (run [Connect offline_driver, NewPage (Inr 10) None None, NewPage (Inr 11) None None]
                        (new_manager no_options))))) = [1, 2, 3, 4, 5, 6] \<and>
   map fst (pages (run [NewPage (Inr 12) None None]
                  (snd (closePage 1
                     (run [Connect offline_driver, NewPage (Inr 10) None None, NewPage (Inr 11) None None]
                        (new_manager no_options)))))) = [2, 3, 4, 5, 6]"
  using page_ids_increasing_never_reused
          [of "[Connect offline_driver, NewPage (Inr 10) None None, NewPage (Inr 11) None None]"
              no_options]
  unfolding example_run
  by (simp add: example_run_fields Let_def closePage_def run_def[of "[NewPage (Inr 12) None None]"]
        newPage_def getContext_def case_prod_beta truthy_def registerPage_simps on_page_def)

subsection \<open>Lookup of pages\<close>

lemma Max_key_in_pages:
  assumes "ps \<noteq> []"
  shows "\<exists>page. map_of ps (Max (set (map fst ps))) = Some page"
proof -
  have "Max (set (map fst ps)) \<in> set (map fst ps)"
    using assms by (intro Max_in) simp_all
  then show ?thesis by (metis map_of_eq_None_iff not_Some_eq set_map)
qed

lemma getOrCreate_new:
  assumes "pages st = []" "browserContext st = Some ctx"
  shows "fst (getOrCreatePage (Inr page) None st) = Inr (nextPageId st + 1, page)"
    and "pages (snd (getOrCreatePage (Inr page) None st))
           = [(nextPageId st, page), (nextPageId st + 1, page)]"
    and "calls (snd (getOrCreatePage (Inr page) None st)) = calls st @ [CtxNewPage]"
    and "browserContext (snd (getOrCreatePage (Inr page) None st))
           = Some (ctx\<lparr>ctx_pages := ctx_pages ctx @ [page]\<rparr>)"
  using assms
  by (simp_all add: getOrCreatePage_def newPage_def getContext_def truthy_def Let_def
        registerPage_simps on_page_def case_prod_beta)

lemma getOrCreate_last:
  assumes "pages st \<noteq> []"
  shows "\<exists>page. getOrCreatePage created None st = (Inr (Max (fst ` set (pages st)), page), st) \<and>
          map_of (pages st) (Max (fst ` set (pages st))) = Some page \<and>
          (\<forall>k \<in> fst ` set (pages st). k \<le> Max (fst ` set (pages st)))"
  using assms Max_key_in_pages[OF assms]
  by (auto simp: getOrCreatePage_def Let_def)

lemma pages_registerAll_nonempty: "pages st \<noteq> [] \<Longrightarrow> pages (registerAll ps st) \<noteq> []"
  by (induction ps arbitrary: st) (simp_all add: registerAll_def on_page_def registerPage_simps)

lemma registerAll_empty: "pages (registerAll ps st) = [] \<Longrightarrow> ps = []"
proof (cases ps)
  case Nil
  then show ?thesis by simp
next
  case (Cons p ps')
  assume e: "pages (registerAll ps st) = []"
  have "pages (on_page p st) \<noteq> []" by (simp add: on_page_def registerPage_simps)
  then have "pages (registerAll ps' (on_page p st)) \<noteq> []" by (rule pages_registerAll_nonempty)
  with e Cons show ?thesis by (simp add: registerAll_def)
qed

lemma registerAll_counter:
  "pages (registerAll ps st) = [] \<Longrightarrow> nextPageId (registerAll ps st) = nextPageId st"
  using registerAll_empty[of ps st] by (auto simp: registerAll_def)

lemma registerAll_context: "browserContext (registerAll ps st) = browserContext st"
  by (induction ps arbitrary: st) (simp_all add: registerAll_def on_page_def registerPage_simps)

lemma connected_fresh_connectCDP:
  "connectCDP drv u st = (Inr x, st') \<Longrightarrow> connected_fresh st st'"
  by (auto simp: connectCDP_def Let_def connected_fresh_def registerAll_context
        split: sum.splits list.splits dest: registerAll_counter)

lemma connected_fresh_launchPersistent:
  "launchPersistent drv u st = (Inr x, st') \<Longrightarrow> connected_fresh st st'"
  by (auto simp: launchPersistent_def Let_def connected_fresh_def registerAll_context
        split: sum.splits if_splits dest: registerAll_counter)

lemma connected_fresh_launchTemporary:
  "launchTemporary drv st = (Inr x, st') \<Longrightarrow> connected_fresh st st'"
  by (auto simp: launchTemporary_def applyRouteBlocking_def getContext_def Let_def
        connected_fresh_def split: sum.splits if_splits)

lemma connected_fresh_from:
  "connected_fresh a st' \<Longrightarrow> nextPageId a = nextPageId st \<Longrightarrow> connected_fresh st st'"
  by (simp add: connected_fresh_def)

lemma connectCDP_fail_counter:
  "connectCDP drv u st = (Inl e, st') \<Longrightarrow> nextPageId st' = nextPageId st"
  by (auto simp: connectCDP_def Let_def split: sum.splits list.splits)

lemma launchPersistent_fail_counter:
  "launchPersistent drv u st = (Inl e, st') \<Longrightarrow> nextPageId st' = nextPageId st"
  by (auto simp: launchPersistent_def Let_def split: sum.splits if_splits)

subsection \<open>Bounded logs\<close>

lemma bounded_updates:
  "bounded (calls_update f st) = bounded st"
  "bounded (browserContext_update g st) = bounded st"
  "bounded (browserInstance_update h st) = bounded st"
  "bounded (chromeProcess_update k st) = bounded st"
  "bounded (pages_update k1 st) = bounded st"
  "bounded (nextPageId_update k2 st) = bounded st"
  "bounded (assignedIds_update k3 st) = bounded st"
  "bounded (consoleLogs_update k4 st) = bounded st"
  "bounded (networkLogs_update k5 st) = bounded st"
  "bounded (pendingRequests_update k6 st) = bounded st"
  "bounded (nextRef_update k7 st) = bounded st"
  by (simp_all add: bounded_def)

lemma bounded_new: "bounded (new_manager opts)"
  by (simp add: bounded_def new_manager_def)

lemma bounded_setupPageTracking: "bounded st \<Longrightarrow> bounded (setupPageTracking i st)"
  by (simp add: bounded_def setupPageTracking_def)

lemma bounded_registerPage: "bounded st \<Longrightarrow> bounded (snd (registerPage page st))"
  by (simp add: registerPage_def Let_def bounded_setupPageTracking bounded_updates)

lemma bounded_on_page: "bounded st \<Longrightarrow> bounded (on_page page st)"
  by (simp add: on_page_def bounded_registerPage)

lemma bounded_registerAll: "bounded st \<Longrightarrow> bounded (registerAll ps st)"
  by (induction ps arbitrary: st) (simp_all add: registerAll_def bounded_on_page)

lemma bounded_on_console: "bounded st \<Longrightarrow> bounded (on_console i msg now st)"
  by (auto simp: bounded_def on_console_def split: option.splits)

lemma bounded_on_request: "bounded st \<Longrightarrow> bounded (on_request i request now st)"
  by (simp add: on_request_def bounded_updates)

lemma bounded_on_response: "bounded st \<Longrightarrow> bounded (on_response i response now now' st)"
  by (auto simp: bounded_def on_response_def Let_def split: option.splits)

lemma bounded_on_close: "bounded st \<Longrightarrow> bounded (on_close i st)"
  by (simp add: on_close_def bounded_def)

lemma bounded_logs:
  "bounded st \<Longrightarrow> bounded (snd (getConsoleLogs i st))"
  "bounded st \<Longrightarrow> bounded (clearConsoleLogs i st)"
  "bounded st \<Longrightarrow> bounded (snd (getNetworkLogs i st))"
  "bounded st \<Longrightarrow> bounded (clearNetworkLogs i st)"
  by (auto simp: getConsoleLogs_def clearConsoleLogs_def getNetworkLogs_def clearNetworkLogs_def
        bounded_def split: option.splits)

lemma bounded_newPage:
  assumes "bounded st"
  shows "bounded (snd (newPage created url nav st))"
proof -
  have f: "bounded (snd (registerPage page (on_page page (st\<lparr>browserContext := c, calls := k\<rparr>))))"
    for page c k
    using assms by (intro bounded_registerPage bounded_on_page) (simp add: bounded_updates)
  show ?thesis
    using assms f
    by (simp add: newPage_def Let_def case_prod_beta bounded_updates split: sum.splits option.splits)
qed

lemma bounded_getOrCreatePage: "bounded st \<Longrightarrow> bounded (snd (getOrCreatePage created pageId st))"
  by (auto simp: getOrCreatePage_def Let_def bounded_newPage split: option.splits)

lemma bounded_closePage: "bounded st \<Longrightarrow> bounded (snd (closePage i st))"
  by (auto simp: closePage_def bounded_def split: option.splits)

lemma bounded_focusPage: "bounded st \<Longrightarrow> bounded (snd (focusPage i st))"
  by (auto simp: focusPage_def bounded_def split: option.splits)

lemma bounded_loadStorageState: "bounded st \<Longrightarrow> bounded (snd (loadStorageState files filePath st))"
  by (auto simp: loadStorageState_def getContext_def Let_def case_prod_beta bounded_def
        split: option.splits sum.splits)

lemma bounded_close: "bounded st \<Longrightarrow> bounded (close st)"
  by (simp add: close_def bounded_def)

lemma bounded_connectCDP: "bounded st \<Longrightarrow> bounded (snd (connectCDP drv u st))"
  by (simp add: connectCDP_def Let_def bounded_registerAll bounded_updates
        split: sum.splits list.splits)

lemma bounded_launchPersistent: "bounded st \<Longrightarrow> bounded (snd (launchPersistent drv u st))"
  by (simp add: launchPersistent_def Let_def bounded_registerAll bounded_updates
        split: sum.splits)

lemma bounded_launchTemporary: "bounded st \<Longrightarrow> bounded (snd (launchTemporary drv st))"
  by (simp add: launchTemporary_def applyRouteBlocking_def getContext_def Let_def
        bounded_updates split: sum.splits)

lemma bounded_spawn_and_wait: "bounded st \<Longrightarrow> bounded (spawn_and_wait drv dir st)"
  by (simp add: spawn_and_wait_def Let_def bounded_def)

lemma bounded_spawn: "bounded st \<Longrightarrow> bounded (snd (spawnChromeAndConnect drv dir st))"
  by (simp add: spawnChromeAndConnect_def Let_def case_prod_beta bounded_connectCDP
        bounded_spawn_and_wait split: sum.splits)

lemma bounded_connect: "bounded st \<Longrightarrow> bounded (snd (connect drv st))"
  unfolding connect_def
  by (simp add: case_prod_beta bounded_connectCDP bounded_launchPersistent
        bounded_launchTemporary bounded_spawn split: sum.splits)

lemma bounded_step: "bounded st \<Longrightarrow> bounded (step x st)"
  by (cases x)
     (simp_all add: bounded_connect bounded_close bounded_newPage bounded_getOrCreatePage
        bounded_closePage bounded_focusPage bounded_logs bounded_loadStorageState
        bounded_on_page bounded_on_console bounded_on_request bounded_on_response
        bounded_on_close)

lemma bounded_run: "bounded st \<Longrightarrow> bounded (run ops st)"
  by (induction ops arbitrary: st) (simp_all add: run_def bounded_step)

text \<open>What a sequence of console messages leaves in the array of a page.\<close>

lemma on_console_logs: "consoleLogs (on_console i msg now st) = consoleLogs st"
  by (simp add: on_console_def split: option.splits)

lemma console_fold:
  assumes "consoleLogs st i = Some logs" and "length (consoleArrays st logs) \<le> 500"
  shows "consoleArrays (fold (\<lambda>(msg, now). on_console i msg now) msgs st) logs
           = take 500 (consoleArrays st logs @ map (\<lambda>(msg, now). console_entry msg now) msgs)"
  using assms
proof (induction msgs arbitrary: st)
  case Nil
  then show ?case by simp
next
  case (Cons a msgs)
  obtain msg now where a: "a = (msg, now)" by (cases a)
  let ?st = "on_console i msg now st"
  have l: "consoleLogs ?st i = Some logs" using Cons.prems(1) by (simp add: on_console_logs)
  show ?case
  proof (cases "length (consoleArrays st logs) < 500")
    case True
    then have arr: "consoleArrays ?st logs = consoleArrays st logs @ [console_entry msg now]"
      using Cons.prems(1) by (simp add: on_console_def)
    with True have "length (consoleArrays ?st logs) \<le> 500" by simp
    from Cons.IH[OF l this] show ?thesis by (simp add: a arr)
  next
    case False
    then have arr: "consoleArrays ?st logs = consoleArrays st logs"
      using Cons.prems(1) by (simp add: on_console_def)
    from False Cons.prems(2) have full: "length (consoleArrays st logs) = 500" by simp
    from Cons.IH[OF l] arr Cons.prems(2) show ?thesis by (simp add: a full)
  qed
qed

text \<open>What a sequence of responses leaves in the array of a page.\<close>

lemma on_response_logs: "networkLogs (on_response i response now now' st) = networkLogs st"
  by (simp add: on_response_def Let_def split: option.splits)

lemma response_fold:
  assumes "networkLogs st i = Some logs" and "length (networkArrays st logs) \<le> 500"
  shows "\<exists>es. length es = length rs \<and> map n_url es = map (\<lambda>x. p_url (fst x)) rs \<and>
           networkArrays (fold (\<lambda>(r, t, t'). on_response i r t t') rs st) logs
             = take 500 (networkArrays st logs @ es)"
  using assms
proof (induction rs arbitrary: st)
  case Nil
  then show ?case by simp
next
  case (Cons a rs)
  obtain r t t' where a: "a = (r, t, t')" by (cases a)
  let ?st = "on_response i r t t' st"
  let ?e = "network_entry r (pendingRequests st i (p_url r)) t t'"
  have l: "networkLogs ?st i = Some logs" using Cons.prems(1) by (simp add: on_response_logs)
  have u: "n_url ?e = p_url r" by (simp add: network_entry_def)
  show ?case
  proof (cases "length (networkArrays st logs) < 500")
    case True
    then have arr: "networkArrays ?st logs = networkArrays st logs @ [?e]"
      using Cons.prems(1) by (simp add: on_response_def Let_def)
    with True have "length (networkArrays ?st logs) \<le> 500" by simp
    from Cons.IH[OF l this] obtain es where es: "length es = length rs"
      "map n_url es = map (\<lambda>x. p_url (fst x)) rs"
      "networkArrays (fold (\<lambda>(r, t, t'). on_response i r t t') rs ?st) logs
         = take 500 (networkArrays ?st logs @ es)" by blast
    show ?thesis
      by (rule exI[of _ "?e # es"]) (simp add: a es arr u)
  next
    case False
    then have arr: "networkArrays ?st logs = networkArrays st logs"
      using Cons.prems(1) by (simp add: on_response_def Let_def)
    from False Cons.prems(2) have full: "length (networkArrays st logs) = 500" by simp
    from Cons.IH[OF l] arr Cons.prems(2) obtain es where es: "length es = length rs"
      "map n_url es = map (\<lambda>x. p_url (fst x)) rs"
      "networkArrays (fold (\<lambda>(r, t, t'). on_response i r t t') rs ?st) logs
         = take 500 (networkArrays ?st logs @ es)" by auto
    show ?thesis
      by (rule exI[of _ "?e # es"]) (simp add: a es arr u full)
  qed
qed

lemma one_page_session_eq:
  "one_page_session = snd (newPage (Inr 10) None None offline_session)"
  by (simp add: one_page_session_def run_def offline_session_def)

lemma one_page_session_fields:
  "pages one_page_session = [(1, 10), (2, 10)]"
  "nextPageId one_page_session = 3"
  "assignedIds one_page_session = [1, 2]"
  "consoleLogs one_page_session 1 = Some 0"
  "networkLogs one_page_session 1 = Some 1"
  "consoleArrays one_page_session 0 = []"
  "networkArrays one_page_session 1 = []"
  "nextRef one_page_session = 4"
  "pendingRequests one_page_session 1 = Map.empty"
  by (simp_all add: one_page_session_eq newPage_def getContext_def offline_session_fields
        Let_def case_prod_beta truthy_def registerPage_def setupPageTracking_def on_page_def)

text \<open>
  Claim C1, as the code has it. In every run of a manager no log array, console or
  network, ever holds more than 500 entries. A listener appends only while the array holds
  fewer than 500 entries and otherwise drops the new entry: after any sequence of console
  messages the array of the page holds the first 500 of the old entries followed by the
  new ones, so once it is full it keeps its oldest 500 entries and every later entry is
  lost; the same holds for the entries the responses produce, one per response, each with
  the URL of its response.
\<close>

theorem log_arrays_bounded_drop_newest:
  "let st = run ops (new_manager opts) in
     (\<forall>r. length (consoleArrays st r) \<le> 500 \<and> length (networkArrays st r) \<le> 500) \<and>
     (\<forall>i logs msgs. consoleLogs st i = Some logs \<longrightarrow>
        consoleArrays (fold (\<lambda>(msg, now). on_console i msg now) msgs st) logs
          = take 500 (consoleArrays st logs @ map (\<lambda>(msg, now). console_entry msg now) msgs)) \<and>
     (\<forall>i logs rs. networkLogs st i = Some logs \<longrightarrow>
        (\<exists>es. length es = length rs \<and> map n_url es = map (\<lambda>x. p_url (fst x)) rs \<and>
           networkArrays (fold (\<lambda>(r, t, t'). on_response i r t t') rs st) logs
             = take 500 (networkArrays st logs @ es)))"
proof -
  define st where "st = run ops (new_manager opts)"
  have b: "bounded st" unfolding st_def by (intro bounded_run bounded_new)
  then have len: "length (consoleArrays st r) \<le> 500" "length (networkArrays st r) \<le> 500" for r
    by (simp_all add: bounded_def)
  show ?thesis
    unfolding Let_def st_def[symmetric]
    using len console_fold[OF _ len(1)] response_fold[OF _ len(2)] by blast
qed

theorem log_arrays_bounded_drop_newest_witness:
  "one_page_session = run [Connect offline_driver, NewPage (Inr 10) None None] (new_manager no_options) \<and>
   consoleLogs one_page_session 1 = Some 0 \<and>
   length console_flood = 501 \<and>
   consoleArrays (fold (\<lambda>(msg, now). on_console 1 msg now) console_flood one_page_session) 0
     = take 500 (map (\<lambda>(msg, now). console_entry msg now) console_flood) \<and>
   length (consoleArrays (fold (\<lambda>(msg, now). on_console 1 msg now) console_flood one_page_session) 0)
     = 500 \<and>
   length (networkArrays (fold (\<lambda>(r, t, t'). on_response 1 r t t') [(pong, 7, 8)] one_page_session) 1)
     = 1"
proof -
  note T = log_arrays_bounded_drop_newest
             [of "[Connect offline_driver, NewPage (Inr 10) None None]" no_options,
              unfolded Let_def, folded one_page_session_def]
  have c: "consoleArrays (fold (\<lambda>(msg, now). on_console 1 msg now) console_flood one_page_session) 0
     = take 500 (map (\<lambda>(msg, now). console_entry msg now) console_flood)"
    using T[THEN conjunct2, THEN conjunct1, rule_format, of 1 0 console_flood]
    by (simp only: one_page_session_fields append_Nil)
  have n: "length (networkArrays (fold (\<lambda>(r, t, t'). on_response 1 r t t') [(pong, 7, 8)] one_page_session) 1) = 1"
    using T[THEN conjunct2, THEN conjunct2, rule_format, of 1 1 "[(pong, 7, 8)]"]
      one_page_session_fields(5,7)
    by auto
  have f: "length console_flood = 501" by (simp add: console_flood_def)
  have l: "length (consoleArrays
      (fold (\<lambda>(msg, now). on_console 1 msg now) console_flood one_page_session) 0) = 500"
    unfolding c by (simp add: f)
  show ?thesis
    by (intro conjI) (fact one_page_session_def one_page_session_fields(4) f c l n)+
qed

text \<open>
  After 501 console messages the array is not the 500 most recent entries: it still
  starts with the oldest entry, of time 0, and the newest, of time 500, is missing.
\<close>

theorem log_arrays_evict_oldest_counterexample:
  "consoleArrays (fold (\<lambda>(msg, now). on_console 1 msg now) console_flood one_page_session) 0
     \<noteq> drop 1 (map (\<lambda>(msg, now). console_entry msg now) console_flood) \<and>
   c_timestamp (hd (consoleArrays
       (fold (\<lambda>(msg, now). on_console 1 msg now) console_flood one_page_session) 0)) = 0 \<and>
   c_timestamp (last (consoleArrays
       (fold (\<lambda>(msg, now). on_console 1 msg now) console_flood one_page_session) 0)) = 499"
proof -
  let ?es = "map (\<lambda>(msg, now). console_entry msg now) console_flood"
  let ?buf = "consoleArrays (fold (\<lambda>(msg, now). on_console 1 msg now) console_flood one_page_session) 0"
  have buf: "?buf = take 500 ?es"
    using console_fold[of one_page_session 1 0 console_flood] one_page_session_fields(4,6)
    by simp
  have es: "?es = map (\<lambda>t. console_entry hello (int t)) [0..<501]"
    by (simp add: console_flood_def o_def)
  have h: "hd (take 500 ?es) = console_entry hello 0"
    unfolding es by (simp add: hd_conv_nth)
  have l: "last (take 500 ?es) = console_entry hello 499"
    unfolding es by (simp add: last_conv_nth)
  have d: "hd (drop 1 ?es) = console_entry hello 1"
    unfolding es by (simp add: hd_drop_conv_nth)
  have ne: "take 500 ?es \<noteq> drop 1 ?es"
  proof
    assume "take 500 ?es = drop 1 ?es"
    then have "hd (take 500 ?es) = hd (drop 1 ?es)" by simp
    then show False unfolding h d by (simp add: console_entry_def)
  qed
  have t0: "c_timestamp (hd ?buf) = 0" unfolding buf h by (simp add: console_entry_def)
  have t1: "c_timestamp (last ?buf) = 499" unfolding buf l by (simp add: console_entry_def)
  from ne have "?buf \<noteq> drop 1 ?es" unfolding buf .
  with t0 t1 show ?thesis by (intro conjI)
qed

text \<open>
  Claim C9, where the code departs from it. \<^verbatim>\<open>getConsoleLogs\<close> and \<^verbatim>\<open>getNetworkLogs\<close>
  hand out the array stored for the page, not a copy: a console message or a response
  that arrives afterwards shows in the value handed out before.
\<close>

theorem log_getters_return_live_arrays:
  "fst (getConsoleLogs 1 one_page_session) = 0 \<and>
   consoleArrays (snd (getConsoleLogs 1 one_page_session)) 0 = [] \<and>
   consoleArrays (step (ConsoleEvent 1 hello 5) (snd (getConsoleLogs 1 one_page_session))) 0
     = [\<lparr>c_type = ''log'', c_text = ''hello'', c_url = [], c_timestamp = 5\<rparr>] \<and>
   fst (getNetworkLogs 1 one_page_session) = 1 \<and>
   networkArrays (snd (getNetworkLogs 1 one_page_session)) 1 = [] \<and>
   networkArrays (step (ResponseEvent 1 pong 7 8) (snd (getNetworkLogs 1 one_page_session))) 1
     = [\<lparr>n_url = ''http://a.test/'', n_method = ''GET'', n_status = Some 200,
         n_resourceType = ''other'', n_timestamp = 7, n_duration = None\<rparr>]"
proof -
  have g: "getConsoleLogs 1 one_page_session = (0, one_page_session)"
    "getNetworkLogs 1 one_page_session = (1, one_page_session)"
    using one_page_session_fields(4,5) by (simp_all add: getConsoleLogs_def getNetworkLogs_def)
  have t: "tracked one_page_session 1" by (simp add: tracked_def one_page_session_fields(3))
  have c: "consoleArrays (on_console 1 hello 5 one_page_session) 0
             = [\<lparr>c_type = ''log'', c_text = ''hello'', c_url = [], c_timestamp = 5\<rparr>]"
    using one_page_session_fields(4,6)
    by (simp add: on_console_def console_entry_def hello_def)
  have n: "networkArrays (on_response 1 pong 7 8 one_page_session) 1
             = [\<lparr>n_url = ''http://a.test/'', n_method = ''GET'', n_status = Some 200,
                 n_resourceType = ''other'', n_timestamp = 7, n_duration = None\<rparr>]"
    using one_page_session_fields(5,7,9)
    by (simp add: on_response_def Let_def network_entry_def pong_def)
  show ?thesis
    by (simp only: g fst_conv snd_conv step.simps t if_True c n one_page_session_fields(6,7)
          simp_thms)
qed

lemma connected_fresh_spawn:
  assumes "spawnChromeAndConnect drv dir st = (Inr x, st')"
  shows "connected_fresh st st'"
proof -
  let ?st1 = "spawn_and_wait drv dir st"
  from assms obtain u where "connectCDP drv (Some ''http://localhost:9222'') ?st1 = (Inr u, st')"
    by (auto simp: spawnChromeAndConnect_def Let_def split: if_splits prod.splits sum.splits)
  then have "connected_fresh ?st1 st'" by (rule connected_fresh_connectCDP)
  then show ?thesis by (rule connected_fresh_from) (simp add: spawn_and_wait_ids)
qed

lemma connected_fresh_connect:
  assumes "connect drv st = (Inr msg, st')"
  shows "connected_fresh st st'"
proof (cases "truthy (cdpUrl (options st))")
  case True
  with assms obtain u where "connectCDP drv None st = (Inr u, st')"
    by (auto simp: connect_def split: prod.splits sum.splits)
  then show ?thesis by (rule connected_fresh_connectCDP)
next
  case c: False
  show ?thesis
  proof (cases "truthy (userDataDir (options st))")
    case True
    obtain r st1 where lp: "launchPersistent drv None st = (r, st1)" by (cases "launchPersistent drv None st")
    show ?thesis
    proof (cases r)
      case (Inr u)
      with assms c True lp have "st' = st1" by (simp add: connect_def)
      with lp Inr show ?thesis by (auto intro: connected_fresh_launchPersistent)
    next
      case (Inl err)
      with assms c True lp
      have "spawnChromeAndConnect drv (the (userDataDir (options st))) st1 = (Inr msg, st')"
        by (simp add: connect_def split: if_splits)
      then have "connected_fresh st1 st'" by (rule connected_fresh_spawn)
      moreover have "nextPageId st1 = nextPageId st"
        using lp Inl by (auto intro: launchPersistent_fail_counter)
      ultimately show ?thesis by (rule connected_fresh_from)
    qed
  next
    case False
    obtain r st1 where cc: "connectCDP drv (Some ''http://localhost:9222'') st = (r, st1)"
      by (cases "connectCDP drv (Some ''http://localhost:9222'') st")
    show ?thesis
    proof (cases r)
      case (Inr u)
      with assms c False cc have "st' = st1" by (simp add: connect_def)
      with cc Inr show ?thesis by (auto intro: connected_fresh_connectCDP)
    next
      case (Inl e)
      with assms c False cc obtain u where "launchTemporary drv st1 = (Inr u, st')"
        by (auto simp: connect_def split: prod.splits sum.splits)
      then have "connected_fresh st1 st'" by (rule connected_fresh_launchTemporary)
      moreover have "nextPageId st1 = nextPageId st"
        using cc Inl by (auto intro: connectCDP_fail_counter)
      ultimately show ?thesis by (rule connected_fresh_from)
    qed
  qed
qed

text \<open>The parts of the contract of \<^verbatim>\<open>getOrCreatePage\<close> that hold in every state: the
  lookup by id, its failure, and the choice of the highest id.\<close>

lemma getOrCreatePage_lookup:
  "(\<forall>page. map_of (pages st) pid = Some page \<longrightarrow>
        getOrCreatePage created (Some pid) st = (Inr (pid, page), st)) \<and>
   (map_of (pages st) pid = None \<longrightarrow>
        getOrCreatePage created (Some pid) st = (Inl (PageNotFound pid), st)) \<and>
   (pages st \<noteq> [] \<longrightarrow>
        (\<exists>page. getOrCreatePage created None st = (Inr (Max (fst ` set (pages st)), page), st) \<and>
                map_of (pages st) (Max (fst ` set (pages st))) = Some page \<and>
                (\<forall>k \<in> fst ` set (pages st). k \<le> Max (fst ` set (pages st)))))"
  using getOrCreate_last[of st created] by (auto simp: getOrCreatePage_def)

text \<open>After any connection that succeeds and finds no page, the first call without an id
  returns the id 2 and leaves the new page in the registry under the ids 1 and 2.\<close>

lemma getOrCreatePage_after_connect:
  assumes "connect drv (new_manager opts) = (Inr msg, st)" and "pages st = []"
  shows "fst (getOrCreatePage (Inr new) None st) = Inr (2, new)"
    and "pages (snd (getOrCreatePage (Inr new) None st)) = [(1, new), (2, new)]"
proof -
  from assms(1) have "connected_fresh (new_manager opts) st" by (rule connected_fresh_connect)
  with assms(2) obtain ctx where c: "browserContext st = Some ctx" and k: "nextPageId st = 1"
    by (auto simp: connected_fresh_def new_manager_def)
  show "fst (getOrCreatePage (Inr new) None st) = Inr (2, new)"
    using getOrCreate_new(1)[OF assms(2) c, of new] by (simp add: k)
  show "pages (snd (getOrCreatePage (Inr new) None st)) = [(1, new), (2, new)]"
    using getOrCreate_new(2)[OF assms(2) c, of new] by (simp add: k)
qed

text \<open>
  Claim C5, where the code departs from it. A new manager connects on a machine where no
  debugging endpoint listens, which gives a temporary browser and an empty registry, and
  \<^verbatim>\<open>getOrCreatePage\<close> is called without an id, the library answering with page 10. One
  page is asked of the library, but it is registered twice, by the page-created listener
  under the id 1 and by \<^verbatim>\<open>newPage\<close> under the id 2: the call returns the id 2, not 1,
  and the registry holds two entries for the one page. A second call without an id
  returns the id 2 again and creates nothing.
\<close>

theorem getOrCreatePage_registers_page_twice:
  "connect offline_driver (new_manager no_options) = (Inr ''Launched chromium'', offline_session) \<and>
   pages offline_session = [] \<and>
   fst (getOrCreatePage (Inr 10) None offline_session) = Inr (2, 10) \<and>
   pages (snd (getOrCreatePage (Inr 10) None offline_session)) = [(1, 10), (2, 10)] \<and>
   calls (snd (getOrCreatePage (Inr 10) None offline_session))
     = calls offline_session @ [CtxNewPage] \<and>
   getOrCreatePage (Inl NotConnected) None (snd (getOrCreatePage (Inr 10) None offline_session))
     = (Inr (2, 10), snd (getOrCreatePage (Inr 10) None offline_session))"
proof -
  let ?s = "snd (getOrCreatePage (Inr 10) None offline_session)"
  have e: "pages offline_session = []"
    and c: "browserContext offline_session = Some (fresh_context Chromium)"
    and k: "nextPageId offline_session = 1"
    by (simp_all add: offline_session_fields)
  note n = getOrCreate_new[OF e c, of 10]
  have r: "fst (getOrCreatePage (Inr 10) None offline_session) = Inr (2, 10)"
    using n(1) by (simp add: k)
  have p: "pages ?s = [(1, 10), (2, 10)]" using n(2) by (simp add: k)
  have again: "getOrCreatePage (Inl NotConnected) None ?s = (Inr (2, 10), ?s)"
    by (simp add: getOrCreatePage_def[of "Inl NotConnected"] p Let_def)
  show ?thesis
    using offline_connect e r p n(3) again by (intro conjI)
qed

text \<open>
  Claim C10. For a page id that is not in the registry, \<^verbatim>\<open>closePage\<close> and
  \<^verbatim>\<open>focusPage\<close> return normally and leave the whole manager as it was: the registry,
  the logs and their arrays, the context, and the calls made to the library, to which
  nothing is added. \<^verbatim>\<open>getOrCreatePage\<close> with that id fails with the page-not-found
  error.
\<close>

theorem unknown_page_close_focus_noop:
  assumes "map_of (pages st) pageId = None"
  shows "closePage pageId st = (Inr (), st) \<and> focusPage pageId st = (Inr (), st) \<and>
         getOrCreatePage created (Some pageId) st = (Inl (PageNotFound pageId), st)"
  using assms by (simp add: closePage_def focusPage_def getOrCreatePage_def)

theorem unknown_page_close_focus_noop_witness:
  "pages one_page_session = [(1, 10), (2, 10)] \<and>
   map_of (pages one_page_session) 5 = None \<and>
   closePage 5 one_page_session = (Inr (), one_page_session) \<and>
   focusPage 5 one_page_session = (Inr (), one_page_session) \<and>
   getOrCreatePage (Inr 11) (Some 5) one_page_session = (Inl (PageNotFound 5), one_page_session)"
  using unknown_page_close_focus_noop [of one_page_session 5 "Inr 11"]
  by (simp add: one_page_session_fields)

subsection \<open>Connecting\<close>


lemma str_includes_mid: "str_includes (a @ b @ c) b"
  unfolding str_includes_def sublist_def by blast

lemma str_includes_end: "str_includes (a @ b) b"
  using str_includes_mid[of a b "[]"] by simp

lemma locked_message_text:
  "str_includes (profile_locked_message m) ''close ALL Chrome windows first, then retry.''"
  "str_includes (profile_locked_message m)
     ''Or use CDP instead: start Chrome with --remote-debugging-port=9222 and use --cdp http://localhost:9222''"
  "str_includes (profile_locked_message m) m"
proof -
  let ?a = "''Chrome profile is locked '' @ [CHR 0xE2, CHR 0x80, CHR 0x94] @ '' ''"
  let ?b = "''close ALL Chrome windows first, then retry.''"
  let ?c = "''Or use CDP instead: start Chrome with --remote-debugging-port=9222 and use --cdp http://localhost:9222''"
  have 1: "profile_locked_message m = ?a @ ?b @ ([CHR 0x0A] @ ?c @ [CHR 0x0A] @ ''Original error: '' @ m)"
    by (simp add: profile_locked_message_def)
  have 2: "profile_locked_message m = (?a @ ?b @ [CHR 0x0A]) @ ?c @ ([CHR 0x0A] @ ''Original error: '' @ m)"
    by (simp add: profile_locked_message_def)
  have 3: "profile_locked_message m = (?a @ ?b @ [CHR 0x0A] @ ?c @ [CHR 0x0A] @ ''Original error: '') @ m"
    by (simp add: profile_locked_message_def)
  show "str_includes (profile_locked_message m) ?b" unfolding 1 by (rule str_includes_mid)
  show "str_includes (profile_locked_message m) ?c" unfolding 2 by (rule str_includes_mid)
  show "str_includes (profile_locked_message m) m" unfolding 3 by (rule str_includes_end)
qed

lemma locked_example:
  "str_includes ''Failed to create a ProcessSingleton: SingletonLock exists'' ''SingletonLock''"
  "\<not> str_includes ''Failed to create a ProcessSingleton: SingletonLock exists'' ''non-default data directory''"
  "\<not> str_includes ''Failed to create a ProcessSingleton: SingletonLock exists'' ''remote debugging''"
  unfolding str_includes_def by code_simp+

lemma persistent_launch_error_locked:
  assumes "message err = Some m"
    and "str_includes m ''lock'' \<or> str_includes m ''already running'' \<or> str_includes m ''SingletonLock''"
    and "\<not> str_includes m ''non-default data directory''"
    and "\<not> str_includes m ''remote debugging''"
  shows "persistent_launch_error err = ProfileLocked m"
  using assms by (simp add: persistent_launch_error_def message_includes_def)

text \<open>
  Claim C2. When no debugging endpoint is configured, a profile directory is, and the
  persistent launch fails with an error of the profile-locked class (its message contains
  \<^verbatim>\<open>lock\<close>, \<^verbatim>\<open>already running\<close> or \<^verbatim>\<open>SingletonLock\<close>, and is not of the class tested
  before it, whose messages contain \<^verbatim>\<open>non-default data directory\<close> or
  \<^verbatim>\<open>remote debugging\<close>), \<^verbatim>\<open>connect\<close> fails with the profile-locked error, whose text
  tells to close all browser windows or to use the debugging endpoint and quotes the
  original message. The only call made to the library is the persistent launch: no
  browser is spawned, nothing is attached to, and no temporary browser is launched.
\<close>

theorem profile_locked_is_fatal:
  assumes "\<not> truthy (cdpUrl (options st))"
    and "userDataDir (options st) = Some dir" and "dir \<noteq> []"
    and "launchPersistentContext drv (getBrowserType st) dir = Inl err"
    and "message err = Some m"
    and "str_includes m ''lock'' \<or> str_includes m ''already running'' \<or> str_includes m ''SingletonLock''"
    and "\<not> str_includes m ''non-default data directory''"
    and "\<not> str_includes m ''remote debugging''"
  shows "connect drv st =
           (Inl (ProfileLocked m), st\<lparr>calls := calls st @ [LaunchPersistentContext (getBrowserType st) dir]\<rparr>) \<and>
         message (ProfileLocked m) = Some (profile_locked_message m) \<and>
         str_includes (profile_locked_message m) ''close ALL Chrome windows first, then retry.'' \<and>
         str_includes (profile_locked_message m)
           ''Or use CDP instead: start Chrome with --remote-debugging-port=9222 and use --cdp http://localhost:9222'' \<and>
         str_includes (profile_locked_message m) m"
proof -
  have e: "persistent_launch_error err = ProfileLocked m"
    by (rule persistent_launch_error_locked[OF assms(5-8)])
  have lp: "launchPersistent drv None st =
      (Inl (ProfileLocked m), st\<lparr>calls := calls st @ [LaunchPersistentContext (getBrowserType st) dir]\<rparr>)"
    using assms(2-4) by (simp add: launchPersistent_def Let_def e)
  have "connect drv st =
      (Inl (ProfileLocked m), st\<lparr>calls := calls st @ [LaunchPersistentContext (getBrowserType st) dir]\<rparr>)"
    using assms(1-3) by (simp add: connect_def lp truthy_def)
  then show ?thesis using locked_message_text[of m] by simp
qed

theorem profile_locked_is_fatal_witness:
  "\<not> truthy (cdpUrl (options (new_manager profile_options))) \<and>
   userDataDir (options (new_manager profile_options)) = Some ''/home/u/profile'' \<and>
   launchPersistentContext locked_driver Chromium ''/home/u/profile''
     = Inl (DriverError (Some ''Failed to create a ProcessSingleton: SingletonLock exists'') False) \<and>
   str_includes ''Failed to create a ProcessSingleton: SingletonLock exists'' ''SingletonLock'' \<and>
   connect locked_driver (new_manager profile_options) =
     (Inl (ProfileLocked ''Failed to create a ProcessSingleton: SingletonLock exists''),
      (new_manager profile_options)\<lparr>calls := [LaunchPersistentContext Chromium ''/home/u/profile'']\<rparr>)"
proof -
  let ?st = "new_manager profile_options"
  let ?m = "''Failed to create a ProcessSingleton: SingletonLock exists''"
  have o: "\<not> truthy (cdpUrl (options ?st))" "userDataDir (options ?st) = Some ''/home/u/profile''"
    "getBrowserType ?st = Chromium" "calls ?st = []"
    by (simp_all add: new_manager_def profile_options_def no_options_def truthy_def getBrowserType_def)
  have l: "launchPersistentContext locked_driver (getBrowserType ?st) ''/home/u/profile''
     = Inl (DriverError (Some ?m) False)"
    by (simp add: locked_driver_def)
  have "connect locked_driver ?st =
     (Inl (ProfileLocked ?m), ?st\<lparr>calls := calls ?st @ [LaunchPersistentContext (getBrowserType ?st) ''/home/u/profile'']\<rparr>)"
    using profile_locked_is_fatal
            [OF o(1) o(2) _ l _ disjI2[OF disjI2[OF locked_example(1)]] locked_example(2,3)]
    by simp
  then show ?thesis using o l locked_example(1) by simp
qed




subsection \<open>Storage state\<close>

lemma load_origin_frame:
  "ctx_pages (fst (load_origin os cs)) = ctx_pages (fst cs)"
  "page_origin (fst (load_origin os cs)) = page_origin (fst cs)"
  "ctx_cookies (fst (load_origin os cs)) = ctx_cookies (fst cs)"
  "ctx_engine (fst (load_origin os cs)) = ctx_engine (fst cs)"
  by (simp_all add: load_origin_def replay_entries_def split: list.splits prod.splits)

lemma load_origin_storage:
  "localStorage (fst (load_origin os cs)) orig =
     (if first_page_shows (fst cs) orig \<and> origin os = orig
      then set_items (entries os) (localStorage (fst cs) orig)
      else localStorage (fst cs) orig)"
  by (auto simp: load_origin_def replay_entries_def first_page_shows_def
        split: list.splits prod.splits)

lemma first_page_shows_load_origin:
  "first_page_shows (fst (load_origin os cs)) orig = first_page_shows (fst cs) orig"
  by (simp add: first_page_shows_def load_origin_frame split: list.splits)

lemma set_items_append: "set_items (xs @ ys) m = set_items ys (set_items xs m)"
  by (simp add: set_items_def)

lemma set_items_Nil: "set_items [] m = m"
  by (simp add: set_items_def)

lemma load_fold:
  "ctx_pages (fst (fold load_origin oss cs)) = ctx_pages (fst cs) \<and>
   page_origin (fst (fold load_origin oss cs)) = page_origin (fst cs) \<and>
   ctx_cookies (fst (fold load_origin oss cs)) = ctx_cookies (fst cs) \<and>
   ctx_engine (fst (fold load_origin oss cs)) = ctx_engine (fst cs) \<and>
   localStorage (fst (fold load_origin oss cs)) orig =
     (if first_page_shows (fst cs) orig
      then set_items (entries_for orig oss) (localStorage (fst cs) orig)
      else localStorage (fst cs) orig)"
proof (induction oss arbitrary: cs)
  case Nil
  show ?case by (simp add: entries_for_def set_items_Nil)
next
  case (Cons os oss)
  have e: "entries_for orig (os # oss) =
             (if origin os = orig then entries os else []) @ entries_for orig oss"
    by (simp add: entries_for_def)
  show ?case
    by (simp add: Cons.IH[of "load_origin os cs"] load_origin_frame load_origin_storage
          first_page_shows_load_origin e set_items_append set_items_Nil)
qed

lemma loadStorageState_result:
  assumes "files filePath = Some state" and "browserContext st = Some ctx"
  shows "loadStorageState files filePath st =
           (Inr (), st\<lparr>browserContext :=
                          Some (fst (fold load_origin (ss_origins state)
                                  (ctx\<lparr>ctx_cookies := ctx_cookies ctx @ ss_cookies state\<rparr>,
                                   calls st @ [AddCookies (ss_cookies state)]))),
                       calls := snd (fold load_origin (ss_origins state)
                                  (ctx\<lparr>ctx_cookies := ctx_cookies ctx @ ss_cookies state\<rparr>,
                                   calls st @ [AddCookies (ss_cookies state)]))\<rparr>)"
  using assms by (simp add: loadStorageState_def getContext_def Let_def case_prod_beta)

text \<open>
  Claim C8, as the code has it. For a snapshot file that exists and a connected manager,
  \<^verbatim>\<open>loadStorageState\<close> succeeds and adds the cookies of the snapshot to the context
  whatever pages are open. Local storage is replayed through the first page of the
  context only: the storage of the origin that page shows receives the entries the
  snapshot holds for that origin, in order, and the storage of every other origin, also
  one that another open page shows, is left as it was, its entries skipped. The pages and
  their origins do not change.
\<close>

theorem storage_state_replayed_through_first_page:
  assumes "files filePath = Some state" and "browserContext st = Some ctx"
  shows "\<exists>ctx' acts. loadStorageState files filePath st
                        = (Inr (), st\<lparr>browserContext := Some ctx', calls := acts\<rparr>) \<and>
           ctx_cookies ctx' = ctx_cookies ctx @ ss_cookies state \<and>
           ctx_pages ctx' = ctx_pages ctx \<and> page_origin ctx' = page_origin ctx \<and>
           (\<forall>orig. first_page_shows ctx orig \<longrightarrow>
              localStorage ctx' orig =
                set_items (entries_for orig (ss_origins state)) (localStorage ctx orig)) \<and>
           (\<forall>orig. \<not> first_page_shows ctx orig \<longrightarrow> localStorage ctx' orig = localStorage ctx orig)"
proof -
  let ?c1 = "ctx\<lparr>ctx_cookies := ctx_cookies ctx @ ss_cookies state\<rparr>"
  let ?r = "fold load_origin (ss_origins state) (?c1, calls st @ [AddCookies (ss_cookies state)])"
  have f: "first_page_shows ?c1 orig = first_page_shows ctx orig" for orig
    by (simp add: first_page_shows_def split: list.splits)
  note L = load_fold[of "ss_origins state" "(?c1, calls st @ [AddCookies (ss_cookies state)])"]
  have "loadStorageState files filePath st
          = (Inr (), st\<lparr>browserContext := Some (fst ?r), calls := snd ?r\<rparr>)"
    using assms by (rule loadStorageState_result)
  moreover have "ctx_cookies (fst ?r) = ctx_cookies ctx @ ss_cookies state"
    "ctx_pages (fst ?r) = ctx_pages ctx" "page_origin (fst ?r) = page_origin ctx"
    using L by simp_all
  moreover have "\<forall>orig. first_page_shows ctx orig \<longrightarrow>
              localStorage (fst ?r) orig =
                set_items (entries_for orig (ss_origins state)) (localStorage ctx orig)"
    using L by (simp add: f)
  moreover have "\<forall>orig. \<not> first_page_shows ctx orig \<longrightarrow> localStorage (fst ?r) orig = localStorage ctx orig"
    using L by (simp add: f)
  ultimately show ?thesis by blast
qed

lemma two_tab_session_fields:
  "browserContext two_tab_session = Some two_tab_context"
  "map fst (pages two_tab_session) = [1, 2]"
  by (simp_all add: two_tab_session_def connect_def connectCDP_def Let_def new_manager_def
        no_options_def two_tab_driver_def offline_driver_def truthy_def registerAll_def
        on_page_def registerPage_simps two_tab_context_def)

lemma two_tab_first_page:
  "first_page_shows two_tab_context ''https://a.test''"
  "\<not> first_page_shows two_tab_context ''https://b.test''"
  by (simp_all add: first_page_shows_def two_tab_context_def)

theorem storage_state_replayed_through_first_page_witness:
  "saved_files ''state.json'' = Some saved_state \<and>
   browserContext two_tab_session = Some two_tab_context \<and>
   first_page_shows two_tab_context ''https://a.test'' \<and>
   fst (loadStorageState saved_files ''state.json'' two_tab_session) = Inr () \<and>
   ctx_cookies (the (browserContext (snd (loadStorageState saved_files ''state.json'' two_tab_session))))
     = [\<lparr>ck_name = ''sid'', ck_value = ''1'', ck_domain = ''a.test''\<rparr>] \<and>
   localStorage (the (browserContext (snd (loadStorageState saved_files ''state.json'' two_tab_session))))
     ''https://a.test'' ''ka'' = Some ''va''"
proof -
  have s: "saved_files ''state.json'' = Some saved_state" by (simp add: saved_files_def)
  from storage_state_replayed_through_first_page
         [of saved_files "''state.json''" saved_state two_tab_session two_tab_context,
          OF s two_tab_session_fields(1)]
  obtain ctx' acts where
    r: "loadStorageState saved_files ''state.json'' two_tab_session
          = (Inr (), two_tab_session\<lparr>browserContext := Some ctx', calls := acts\<rparr>)" and
    c: "ctx_cookies ctx' = ctx_cookies two_tab_context @ ss_cookies saved_state" and
    a: "\<forall>orig. first_page_shows two_tab_context orig \<longrightarrow>
              localStorage ctx' orig =
                set_items (entries_for orig (ss_origins saved_state)) (localStorage two_tab_context orig)"
    by blast
  have "localStorage ctx' ''https://a.test'' ''ka'' = Some ''va''"
    using a two_tab_first_page(1)
    by (simp add: entries_for_def saved_state_def two_tab_context_def set_items_def)
  moreover have "ctx_cookies ctx' = [\<lparr>ck_name = ''sid'', ck_value = ''1'', ck_domain = ''a.test''\<rparr>]"
    using c by (simp add: saved_state_def two_tab_context_def)
  ultimately show ?thesis
    using s two_tab_session_fields(1) two_tab_first_page(1) by (simp add: r)
qed

text \<open>
  Page 11 is open on \<^verbatim>\<open>https://b.test\<close> and the snapshot holds an entry for that
  origin, yet after the load the storage of \<^verbatim>\<open>https://b.test\<close> does not hold it: only
  the first page, page 10 on \<^verbatim>\<open>https://a.test\<close>, is asked.
\<close>

theorem storage_state_other_page_counterexample:
  "ctx_pages two_tab_context = [10, 11] \<and>
   page_origin two_tab_context 11 = ''https://b.test'' \<and>
   entries_for ''https://b.test'' (ss_origins saved_state) = [(''kb'', ''vb'')] \<and>
   fst (loadStorageState saved_files ''state.json'' two_tab_session) = Inr () \<and>
   localStorage (the (browserContext (snd (loadStorageState saved_files ''state.json'' two_tab_session))))
     ''https://b.test'' ''kb'' = None"
proof -
  have s: "saved_files ''state.json'' = Some saved_state" by (simp add: saved_files_def)
  let ?c1 = "two_tab_context\<lparr>ctx_cookies := ctx_cookies two_tab_context @ ss_cookies saved_state\<rparr>"
  let ?r = "fold load_origin (ss_origins saved_state)
              (?c1, calls two_tab_session @ [AddCookies (ss_cookies saved_state)])"
  have r: "loadStorageState saved_files ''state.json'' two_tab_session
          = (Inr (), two_tab_session\<lparr>browserContext := Some (fst ?r), calls := snd ?r\<rparr>)"
    using s two_tab_session_fields(1) by (rule loadStorageState_result)
  have n: "\<not> first_page_shows ?c1 ''https://b.test''"
    by (simp add: first_page_shows_def two_tab_context_def)
  have "localStorage (fst ?r) ''https://b.test'' = localStorage ?c1 ''https://b.test''"
    using load_fold[of "ss_origins saved_state"
            "(?c1, calls two_tab_session @ [AddCookies (ss_cookies saved_state)])" "''https://b.test''"] n
    by simp
  then have "localStorage (fst ?r) ''https://b.test'' ''kb'' = None"
    by (simp add: two_tab_context_def)
  then show ?thesis
    by (simp add: r two_tab_context_def entries_for_def saved_state_def)
qed

end
